theory Spec2Isabelle
  imports Main "HOL-Library.Word" "HOL-Library.Sublist"
begin

section \<open>The ai-cats client: data model\<close>

text \<open>
  The client of \<^verbatim>\<open>src/api/v1.api.ts\<close> builds a URL, hands it to the platform's
  \<^verbatim>\<open>fetch\<close>, checks \<^verbatim>\<open>response.ok\<close> and shapes the body. The embedding keeps that
  structure: every operation is a function from the world before the call to a result
  (an error or a value) and the world after it.

  Conventions of the embedding:
  \<^item> a JavaScript string is a \<^typ>\<open>string\<close>, read as the bytes of its UTF-8 encoding
    (this is the form in which the URL serialiser consumes it);
  \<^item> the "binary string" built with \<^verbatim>\<open>String.fromCharCode\<close> is a list of 16-bit code
    units, because \<^verbatim>\<open>btoa\<close> rejects code units above 255;
  \<^item> a JavaScript number is an \<^typ>\<open>int\<close>, standing for a safe integer (absolute value
    below \<open>2\<^sup>5\<^sup>3\<close>): floating point, \<^verbatim>\<open>NaN\<close> and fractions are not modelled, and the
    numbers the client handles (\<^verbatim>\<open>limit\<close>, \<^verbatim>\<open>count\<close>) are documented as integers;
  \<^item> a thrown exception or a rejected promise is the \<open>Inl\<close> branch of a sum.
\<close>

type_synonym byte = "8 word"
type_synonym code_unit = "16 word"

text \<open>\<^verbatim>\<open>src/models/enums/size.enum.ts\<close>: a string enum; \<open>Size_value\<close> is the runtime value.\<close>

datatype Size = Large | Medium | Small | Thumbnail | Icon | Tiny | Micro

fun Size_value :: "Size \<Rightarrow> string" where
  "Size_value Large = ''1024''"
| "Size_value Medium = ''512''"
| "Size_value Small = ''256''"
| "Size_value Thumbnail = ''128''"
| "Size_value Icon = ''64''"
| "Size_value Tiny = ''32''"
| "Size_value Micro = ''16''"

text \<open>\<^verbatim>\<open>src/models/enums/theme.enum.ts\<close>.\<close>

datatype Theme = Default | Spring | Summer | Autumn | Winter | Halloween | Xmas | NewYear | Easter

fun Theme_value :: "Theme \<Rightarrow> string" where
  "Theme_value Default = ''Default''"
| "Theme_value Spring = ''Spring''"
| "Theme_value Summer = ''Summer''"
| "Theme_value Autumn = ''Autumn''"
| "Theme_value Winter = ''Winter''"
| "Theme_value Halloween = ''Halloween''"
| "Theme_value Xmas = ''Xmas''"
| "Theme_value NewYear = ''NewYear''"
| "Theme_value Easter = ''Easter''"

text \<open>\<^verbatim>\<open>ResponseType\<close> and the value an image operation resolves to.\<close>

datatype ResponseType = blob | arrayBuffer | base64 | dataUrl

datatype ImageResponse =
    Blob "byte list" string   \<comment> \<open>\<^verbatim>\<open>new Blob([buffer], { type })\<close>: the bytes and the MIME type\<close>
  | ArrayBuffer "byte list"
  | Text string

datatype js_error =
    Error string               \<comment> \<open>\<^verbatim>\<open>throw new Error(message)\<close>\<close>
  | TypeError                  \<comment> \<open>reading a property of \<^verbatim>\<open>null\<close> or \<^verbatim>\<open>undefined\<close>\<close>
  | InvalidCharacterError      \<comment> \<open>\<^verbatim>\<open>btoa\<close> on a code unit above 255\<close>
  | Rejected string            \<comment> \<open>whatever the transport rejected with\<close>

text \<open>The option bundles. A field that is absent or \<^verbatim>\<open>undefined\<close> is \<open>None\<close>.\<close>

record RandomCatOptions =
  size :: "Size option"
  theme :: "Theme option"
  responseType :: "ResponseType option"

record SearchOptions =
  query :: "string option"
  limit :: "int option"
  "from" :: "string option"
  descending :: "bool option"
  theme :: "Theme option"
  size :: "Size option"

record SimilarOptions =
  limit :: "int option"
  size :: "Size option"

record GetByIdOptions =
  size :: "Size option"
  responseType :: "ResponseType option"

section \<open>Platform primitives\<close>

subsection \<open>\<^verbatim>\<open>btoa\<close>: base64 of a binary string\<close>

definition b64_alphabet :: string where
  "b64_alphabet = ''ABCDEFGHIJKLMNOPQRSTUVWXYZabcdefghijklmnopqrstuvwxyz0123456789+/''"

definition enc6 :: "nat \<Rightarrow> char" where
  "enc6 n = b64_alphabet ! (n mod 64)"

text \<open>Three bytes become four sextets; a last group of one or two bytes is padded with \<open>=\<close>.\<close>

fun b64_encode :: "byte list \<Rightarrow> string" where
  "b64_encode (a # b # c # rest) =
     [enc6 (unat a div 4),
      enc6 ((unat a mod 4) * 16 + unat b div 16),
      enc6 ((unat b mod 16) * 4 + unat c div 64),
      enc6 (unat c mod 64)] @ b64_encode rest"
| "b64_encode [a, b] =
     [enc6 (unat a div 4),
      enc6 ((unat a mod 4) * 16 + unat b div 16),
      enc6 ((unat b mod 16) * 4),
      CHR ''='']"
| "b64_encode [a] =
     [enc6 (unat a div 4),
      enc6 ((unat a mod 4) * 16),
      CHR ''='', CHR ''='']"
| "b64_encode [] = []"

definition btoa :: "code_unit list \<Rightarrow> js_error + string" where
  "btoa binary =
     (if \<exists>u \<in> set binary. 255 < u then Inl InvalidCharacterError
      else Inr (b64_encode (map ucast binary)))"

definition fromCharCode :: "byte \<Rightarrow> code_unit" where
  "fromCharCode b = ucast b"

subsection \<open>The observer of the round-trip law: base64 decoding\<close>

text \<open>
  The client never decodes; the round-trip law of the specification speaks of a decoder.
  \<open>b64_decode\<close> is the strict decoder of RFC 4648: groups of four characters of the
  alphabet, \<open>=\<close> only as padding of the last group.
\<close>

fun index_of :: "'a \<Rightarrow> 'a list \<Rightarrow> nat option" where
  "index_of x [] = None"
| "index_of x (y # ys) = (if x = y then Some 0 else map_option Suc (index_of x ys))"

definition dec6 :: "char \<Rightarrow> nat option" where
  "dec6 c = index_of c b64_alphabet"

definition pad :: char where
  "pad = CHR ''=''"

fun b64_decode :: "string \<Rightarrow> byte list option" where
  "b64_decode (c1 # c2 # c3 # c4 # rest) =
     (if rest = [] \<and> c4 = pad \<and> c3 = pad then
        (case (dec6 c1, dec6 c2) of
           (Some s1, Some s2) \<Rightarrow> Some [of_nat (s1 * 4 + s2 div 16)]
         | _ \<Rightarrow> None)
      else if rest = [] \<and> c4 = pad then
        (case (dec6 c1, dec6 c2, dec6 c3) of
           (Some s1, Some s2, Some s3) \<Rightarrow>
             Some [of_nat (s1 * 4 + s2 div 16), of_nat ((s2 mod 16) * 16 + s3 div 4)]
         | _ \<Rightarrow> None)
      else
        (case (dec6 c1, dec6 c2, dec6 c3, dec6 c4) of
           (Some s1, Some s2, Some s3, Some s4) \<Rightarrow>
             (case b64_decode rest of
                None \<Rightarrow> None
              | Some bs \<Rightarrow>
                  Some (of_nat (s1 * 4 + s2 div 16) #
                        of_nat ((s2 mod 16) * 16 + s3 div 4) #
                        of_nat ((s3 mod 4) * 64 + s4) # bs))
         | _ \<Rightarrow> None))"
| "b64_decode [] = Some []"
| "b64_decode _ = None"

subsection \<open>\<^verbatim>\<open>URLSearchParams\<close>\<close>

text \<open>
  The object is its list of name-value pairs. \<^verbatim>\<open>set(name, value)\<close> overwrites the first
  pair of that name and removes the others, or appends a new pair.
\<close>

type_synonym URLSearchParams = "(string \<times> string) list"

fun replace_first :: "string \<Rightarrow> string \<Rightarrow> URLSearchParams \<Rightarrow> URLSearchParams" where
  "replace_first name v [] = []"
| "replace_first name v (p # ps) =
     (if fst p = name then (name, v) # filter (\<lambda>q. fst q \<noteq> name) ps
      else p # replace_first name v ps)"

definition URLSearchParams_set :: "URLSearchParams \<Rightarrow> string \<Rightarrow> string \<Rightarrow> URLSearchParams" where
  "URLSearchParams_set params name v =
     (if name \<in> fst ` set params then replace_first name v params
      else params @ [(name, v)])"

text \<open>
  \<^verbatim>\<open>toString()\<close> is the application/x-www-form-urlencoded serialiser: a space becomes
  \<open>+\<close>, the bytes of \<open>urlencoded_safe\<close> stand for themselves, every other byte is
  percent-encoded with upper-case hexadecimal digits; pairs are joined by \<open>&\<close>.
\<close>

definition urlencoded_safe :: string where
  "urlencoded_safe = ''ABCDEFGHIJKLMNOPQRSTUVWXYZabcdefghijklmnopqrstuvwxyz0123456789*-._''"

definition hex_digits :: string where
  "hex_digits = ''0123456789ABCDEF''"

definition percent_encode_byte :: "char \<Rightarrow> string" where
  "percent_encode_byte c =
     [CHR ''%'', hex_digits ! ((of_char c :: nat) div 16), hex_digits ! ((of_char c :: nat) mod 16)]"

definition urlencoded_byte :: "char \<Rightarrow> string" where
  "urlencoded_byte c =
     (if c = CHR '' '' then ''+''
      else if c \<in> set urlencoded_safe then [c]
      else percent_encode_byte c)"

definition urlencoded_string :: "string \<Rightarrow> string" where
  "urlencoded_string s = concat (map urlencoded_byte s)"

fun join_with :: "string \<Rightarrow> string list \<Rightarrow> string" where
  "join_with sep [] = []"
| "join_with sep [x] = x"
| "join_with sep (x # y # ys) = x @ sep @ join_with sep (y # ys)"

definition URLSearchParams_toString :: "URLSearchParams \<Rightarrow> string" where
  "URLSearchParams_toString params =
     join_with ''&'' (map (\<lambda>p. urlencoded_string (fst p) @ ''='' @ urlencoded_string (snd p)) params)"

subsection \<open>\<^verbatim>\<open>Number.prototype.toString\<close> on integers\<close>

text \<open>
  The decimal digits, with a minus sign for a negative number. This is what
  \<^verbatim>\<open>toString()\<close> gives for a safe integer, one of absolute value below \<open>2\<^sup>5\<^sup>3\<close>. Beyond
  that the platform prints the shortest digits that identify the double (and an exponent
  from \<open>10\<^sup>2\<^sup>1\<close> on), which this function does not follow; \<^verbatim>\<open>NaN\<close> and fractions are
  not values of the model. The statements below use of the printed text only that it is
  not empty, which holds of every number's text.
\<close>

definition digit_char :: "nat \<Rightarrow> char" where
  "digit_char d = ''0123456789'' ! (d mod 10)"

fun nat_toString :: "nat \<Rightarrow> string" where
  "nat_toString n = (if n < 10 then [digit_char n] else nat_toString (n div 10) @ [digit_char (n mod 10)])"

declare nat_toString.simps [simp del]

definition Number_toString :: "int \<Rightarrow> string" where
  "Number_toString i = (if i < 0 then CHR ''-'' # nat_toString (nat (- i)) else nat_toString (nat i))"

subsection \<open>JSON values and property access\<close>

text \<open>
  The value \<^verbatim>\<open>response.json()\<close> resolves to. An object is the list of its own
  properties, each name once. \<open>get_prop\<close> is the member access \<^verbatim>\<open>data.name\<close> for a name
  that no prototype defines (\<^verbatim>\<open>themes\<close>, \<^verbatim>\<open>completion\<close> and \<^verbatim>\<open>count\<close> are such
  names): it throws on \<^verbatim>\<open>null\<close> and \<^verbatim>\<open>undefined\<close>, and is \<^verbatim>\<open>undefined\<close> where the
  property is missing.
\<close>

datatype jsval =
    Undefined
  | Null
  | Boolean bool
  | Number int
  | String string
  | Array "jsval list"
  | Object "(string \<times> jsval) list"

fun get_prop :: "jsval \<Rightarrow> string \<Rightarrow> js_error + jsval" where
  "get_prop Undefined name = Inl TypeError"
| "get_prop Null name = Inl TypeError"
| "get_prop (Object props) name = (case map_of props name of Some v \<Rightarrow> Inr v | None \<Rightarrow> Inr Undefined)"
| "get_prop v name = Inr Undefined"

subsection \<open>The transport and the random source\<close>

text \<open>
  A response as the client reads it: the status with its text, and what the two body
  readers resolve to. \<^verbatim>\<open>response.ok\<close> is a status in the range 200 to 299.
\<close>

record response =
  status :: nat
  statusText :: string
  arrayBuffer_of :: "js_error + byte list"
  json_of :: "js_error + jsval"

definition ok :: "response \<Rightarrow> bool" where
  "ok r = (200 \<le> status r \<and> status r \<le> 299)"

text \<open>
  The world outside a call: how the remote side answers the \<open>n\<close>-th request (counted from
  0) for a URL, the URLs requested so far, the text \<^verbatim>\<open>Math.random().toString()\<close> yields at
  the \<open>k\<close>-th draw, and the number of draws so far.
\<close>

record world =
  server :: "nat \<Rightarrow> string \<Rightarrow> js_error + response"
  requests :: "string list"
  rng :: "nat \<Rightarrow> string"
  draws :: nat

definition fetch :: "string \<Rightarrow> world \<Rightarrow> (js_error + response) \<times> world" where
  "fetch url w = (server w (length (requests w)) url, w\<lparr>requests := requests w @ [url]\<rparr>)"

definition Math_random_toString :: "world \<Rightarrow> string \<times> world" where
  "Math_random_toString w = (rng w (draws w), w\<lparr>draws := Suc (draws w)\<rparr>)"

definition ApiUrl :: string where
  "ApiUrl = ''https://api.ai-cats.net/v1''"

section \<open>The response shaper\<close>

text \<open>
  \<^verbatim>\<open>toResponseType(buffer, type = 'blob')\<close>. The loop
  \<^verbatim>\<open>for (i = 0; i < bytes.length; i++) binary += String.fromCharCode(bytes[i])\<close>
  is the recursion \<open>binary_of\<close> with the accumulator \<open>binary\<close>.
\<close>

fun binary_of :: "byte list \<Rightarrow> code_unit list \<Rightarrow> code_unit list" where
  "binary_of [] binary = binary"
| "binary_of (b # bytes) binary = binary_of bytes (binary @ [fromCharCode b])"

definition toResponseType :: "byte list \<Rightarrow> ResponseType option \<Rightarrow> js_error + ImageResponse" where
  "toResponseType buffer type =
     (case (case type of None \<Rightarrow> blob | Some t \<Rightarrow> t) of
        arrayBuffer \<Rightarrow> Inr (ArrayBuffer buffer)
      | base64 \<Rightarrow>
          (case btoa (binary_of buffer []) of
             Inl e \<Rightarrow> Inl e
           | Inr s \<Rightarrow> Inr (Text s))
      | dataUrl \<Rightarrow>
          (case btoa (binary_of buffer []) of
             Inl e \<Rightarrow> Inl e
           | Inr s \<Rightarrow> Inr (Text (''data:image/jpeg;base64,'' @ s)))
      | blob \<Rightarrow> Inr (Blob buffer ''image/jpeg''))"

section \<open>The eight operations of \<^verbatim>\<open>V1Api\<close>\<close>

text \<open>
  Each \<^verbatim>\<open>async function\<close> is translated statement by statement. \<^verbatim>\<open>options?.f\<close> is
  \<open>Option.bind options f\<close>; \<^verbatim>\<open>if (x)\<close> tests that \<open>x\<close> is present and truthy (a
  non-empty string, a non-zero number, \<^verbatim>\<open>true\<close>); \<^verbatim>\<open>a ?? b\<close> is a case on \<open>None\<close>.
\<close>

definition random :: "RandomCatOptions option \<Rightarrow> world \<Rightarrow> (js_error + ImageResponse) \<times> world" where
  "random options w =
     (let params = [];
          params = (case Option.bind options RandomCatOptions.size of
                      Some s \<Rightarrow> if Size_value s \<noteq> [] then URLSearchParams_set params ''size'' (Size_value s) else params
                    | None \<Rightarrow> params);
          params = (case Option.bind options RandomCatOptions.theme of
                      Some t \<Rightarrow> if Theme_value t \<noteq> [] then URLSearchParams_set params ''theme'' (Theme_value t) else params
                    | None \<Rightarrow> params);
          (rnd, w) = Math_random_toString w;
          params = URLSearchParams_set params ''rnd'' rnd;
          query' = (if URLSearchParams_toString params \<noteq> [] then ''?'' @ URLSearchParams_toString params else []);
          (response, w) = fetch (ApiUrl @ ''/cat'' @ query') w
      in case response of
           Inl e \<Rightarrow> (Inl e, w)
         | Inr r \<Rightarrow>
             if \<not> ok r then (Inl (Error (''Error fetching cat image: '' @ statusText r)), w)
             else (case arrayBuffer_of r of
                     Inl e \<Rightarrow> (Inl e, w)
                   | Inr buffer \<Rightarrow>
                       (toResponseType buffer
                          (Some (case Option.bind options RandomCatOptions.responseType of
                                   None \<Rightarrow> blob | Some t \<Rightarrow> t)), w)))"

definition getById :: "string \<Rightarrow> GetByIdOptions option \<Rightarrow> world \<Rightarrow> (js_error + ImageResponse) \<times> world" where
  "getById ident options w =
     (let size' = (case Option.bind options GetByIdOptions.size of None \<Rightarrow> Large | Some s \<Rightarrow> s);
          (response, w) = fetch (ApiUrl @ ''/cat/'' @ ident @ ''?size='' @ Size_value size') w
      in case response of
           Inl e \<Rightarrow> (Inl e, w)
         | Inr r \<Rightarrow>
             if \<not> ok r then (Inl (Error (''Error fetching cat image: '' @ statusText r)), w)
             else (case arrayBuffer_of r of
                     Inl e \<Rightarrow> (Inl e, w)
                   | Inr buffer \<Rightarrow>
                       (toResponseType buffer
                          (Some (case Option.bind options GetByIdOptions.responseType of
                                   None \<Rightarrow> blob | Some t \<Rightarrow> t)), w)))"

definition getInfo :: "string \<Rightarrow> world \<Rightarrow> (js_error + jsval) \<times> world" where
  "getInfo ident w =
     (let (response, w) = fetch (ApiUrl @ ''/cat/info/'' @ ident) w
      in case response of
           Inl e \<Rightarrow> (Inl e, w)
         | Inr r \<Rightarrow>
             if \<not> ok r then (Inl (Error (''Error fetching cat info: '' @ statusText r)), w)
             else (json_of r, w))"

definition no_SearchOptions :: SearchOptions where
  "no_SearchOptions =
     \<lparr>query = None, limit = None, from = None, descending = None, theme = None, size = None\<rparr>"

definition search :: "SearchOptions option \<Rightarrow> world \<Rightarrow> (js_error + jsval) \<times> world" where
  "search options' w =
     (let options = (case options' of None \<Rightarrow> no_SearchOptions | Some opts \<Rightarrow> opts);
          params = [];
          params = (case query options of
                      Some q \<Rightarrow> if q \<noteq> [] then URLSearchParams_set params ''query'' q else params
                    | None \<Rightarrow> params);
          params = (case SearchOptions.limit options of
                      Some n \<Rightarrow> if n \<noteq> 0 then URLSearchParams_set params ''limit'' (Number_toString n) else params
                    | None \<Rightarrow> params);
          params = (case from options of
                      Some f \<Rightarrow> if f \<noteq> [] then URLSearchParams_set params ''from'' f else params
                    | None \<Rightarrow> params);
          params = (case descending options of
                      Some d \<Rightarrow> if d then URLSearchParams_set params ''descending'' ''true'' else params
                    | None \<Rightarrow> params);
          params = (case SearchOptions.theme options of
                      Some t \<Rightarrow> if Theme_value t \<noteq> [] then URLSearchParams_set params ''theme'' (Theme_value t) else params
                    | None \<Rightarrow> params);
          params = (case SearchOptions.size options of
                      Some s \<Rightarrow> if Size_value s \<noteq> [] then URLSearchParams_set params ''size'' (Size_value s) else params
                    | None \<Rightarrow> params);
          query' = (if URLSearchParams_toString params \<noteq> [] then ''?'' @ URLSearchParams_toString params else []);
          (response, w) = fetch (ApiUrl @ ''/cat/search'' @ query') w
      in case response of
           Inl e \<Rightarrow> (Inl e, w)
         | Inr r \<Rightarrow>
             if \<not> ok r then (Inl (Error (''Error searching for cats: '' @ statusText r)), w)
             else (json_of r, w))"

definition getSimilar :: "string \<Rightarrow> SimilarOptions option \<Rightarrow> world \<Rightarrow> (js_error + jsval) \<times> world" where
  "getSimilar ident options w =
     (let params = [];
          params = (case Option.bind options SimilarOptions.limit of
                      Some n \<Rightarrow> if n \<noteq> 0 then URLSearchParams_set params ''limit'' (Number_toString n) else params
                    | None \<Rightarrow> params);
          params = (case Option.bind options SimilarOptions.size of
                      Some s \<Rightarrow> if Size_value s \<noteq> [] then URLSearchParams_set params ''size'' (Size_value s) else params
                    | None \<Rightarrow> params);
          query' = (if URLSearchParams_toString params \<noteq> [] then ''?'' @ URLSearchParams_toString params else []);
          (response, w) = fetch (ApiUrl @ ''/cat/similar/'' @ ident @ query') w
      in case response of
           Inl e \<Rightarrow> (Inl e, w)
         | Inr r \<Rightarrow>
             if \<not> ok r then (Inl (Error (''Error fetching similar cats: '' @ statusText r)), w)
             else (json_of r, w))"

definition getSearchCompletion :: "SearchOptions option \<Rightarrow> world \<Rightarrow> (js_error + jsval) \<times> world" where
  "getSearchCompletion options' w =
     (let options = (case options' of None \<Rightarrow> no_SearchOptions | Some opts \<Rightarrow> opts);
          params = [];
          params = (case query options of
                      Some q \<Rightarrow> if q \<noteq> [] then URLSearchParams_set params ''query'' q else params
                    | None \<Rightarrow> params);
          params = (case SearchOptions.limit options of
                      Some n \<Rightarrow> if n \<noteq> 0 then URLSearchParams_set params ''limit'' (Number_toString n) else params
                    | None \<Rightarrow> params);
          params = (case from options of
                      Some f \<Rightarrow> if f \<noteq> [] then URLSearchParams_set params ''from'' f else params
                    | None \<Rightarrow> params);
          params = (case descending options of
                      Some d \<Rightarrow> if d then URLSearchParams_set params ''descending'' ''true'' else params
                    | None \<Rightarrow> params);
          params = (case SearchOptions.theme options of
                      Some t \<Rightarrow> if Theme_value t \<noteq> [] then URLSearchParams_set params ''theme'' (Theme_value t) else params
                    | None \<Rightarrow> params);
          params = (case SearchOptions.size options of
                      Some s \<Rightarrow> if Size_value s \<noteq> [] then URLSearchParams_set params ''size'' (Size_value s) else params
                    | None \<Rightarrow> params);
          query' = (if URLSearchParams_toString params \<noteq> [] then ''?'' @ URLSearchParams_toString params else []);
          (response, w) = fetch (ApiUrl @ ''/cat/search-completion'' @ query') w
      in case response of
           Inl e \<Rightarrow> (Inl e, w)
         | Inr r \<Rightarrow>
             if \<not> ok r then (Inl (Error (''Error fetching completion: '' @ statusText r)), w)
             else (case json_of r of
                     Inl e \<Rightarrow> (Inl e, w)
                   | Inr data \<Rightarrow> (get_prop data ''completion'', w)))"

definition getThemes :: "world \<Rightarrow> (js_error + jsval) \<times> world" where
  "getThemes w =
     (let (response, w) = fetch (ApiUrl @ ''/cat/theme-list'') w
      in case response of
           Inl e \<Rightarrow> (Inl e, w)
         | Inr r \<Rightarrow>
             if \<not> ok r then (Inl (Error (''Error fetching themes: '' @ statusText r)), w)
             else (case json_of r of
                     Inl e \<Rightarrow> (Inl e, w)
                   | Inr data \<Rightarrow> (get_prop data ''themes'', w)))"

text \<open>
  The source file also keeps an earlier revision of the module. Its \<^verbatim>\<open>getThemes\<close> is the
  one above except for the path.
\<close>

definition getThemes_earlier :: "world \<Rightarrow> (js_error + jsval) \<times> world" where
  "getThemes_earlier w =
     (let (response, w) = fetch (ApiUrl @ ''/cat/themes'') w
      in case response of
           Inl e \<Rightarrow> (Inl e, w)
         | Inr r \<Rightarrow>
             if \<not> ok r then (Inl (Error (''Error fetching themes: '' @ statusText r)), w)
             else (case json_of r of
                     Inl e \<Rightarrow> (Inl e, w)
                   | Inr data \<Rightarrow> (get_prop data ''themes'', w)))"

definition getCount :: "Theme option \<Rightarrow> world \<Rightarrow> (js_error + jsval) \<times> world" where
  "getCount theme' w =
     (let (response, w) =
            fetch (ApiUrl @ ''/cat/count'' @
                     (case theme' of
                        Some t \<Rightarrow> if Theme_value t \<noteq> [] then ''?theme='' @ Theme_value t else []
                      | None \<Rightarrow> [])) w
      in case response of
           Inl e \<Rightarrow> (Inl e, w)
         | Inr r \<Rightarrow>
             if \<not> ok r then (Inl (Error (''Error fetching count: '' @ statusText r)), w)
             else (case json_of r of
                     Inl e \<Rightarrow> (Inl e, w)
                   | Inr data \<Rightarrow> (get_prop data ''count'', w)))"

text \<open>
  \<^verbatim>\<open>export const V1Api = { random, getById, ... }\<close>: a call names one member and gives
  its arguments; the outcome is an image or a JSON value.
\<close>

datatype call =
    Random "RandomCatOptions option"
  | GetById string "GetByIdOptions option"
  | GetInfo string
  | Search "SearchOptions option"
  | GetSimilar string "SimilarOptions option"
  | GetSearchCompletion "SearchOptions option"
  | GetThemes
  | GetCount "Theme option"

datatype outcome = Image ImageResponse | Json jsval

definition lift_result :: "('a \<Rightarrow> outcome) \<Rightarrow> (js_error + 'a) \<times> world \<Rightarrow> (js_error + outcome) \<times> world" where
  "lift_result f x = (map_sum id f (fst x), snd x)"

fun V1Api :: "call \<Rightarrow> world \<Rightarrow> (js_error + outcome) \<times> world" where
  "V1Api (Random options) w = lift_result Image (random options w)"
| "V1Api (GetById ident options) w = lift_result Image (getById ident options w)"
| "V1Api (GetInfo ident) w = lift_result Json (getInfo ident w)"
| "V1Api (Search options) w = lift_result Json (search options w)"
| "V1Api (GetSimilar ident options) w = lift_result Json (getSimilar ident options w)"
| "V1Api (GetSearchCompletion options) w = lift_result Json (getSearchCompletion options w)"
| "V1Api GetThemes w = lift_result Json (getThemes w)"
| "V1Api (GetCount theme') w = lift_result Json (getCount theme' w)"

section \<open>Observing a call\<close>

text \<open>
  What a caller and the remote side can see of an operation \<open>f\<close> started in world \<open>w\<close>:
  the URL it requested last, and the answer of the transport to that request.
\<close>

definition request_of :: "(world \<Rightarrow> 'a \<times> world) \<Rightarrow> world \<Rightarrow> string" where
  "request_of f w = last (requests (snd (f w)))"

definition answer_to :: "(world \<Rightarrow> 'a \<times> world) \<Rightarrow> world \<Rightarrow> js_error + response" where
  "answer_to f w = server w (length (requests w)) (request_of f w)"

text \<open>
  The pairs a query string carries are read off by the application/x-www-form-urlencoded
  parser, as \<^verbatim>\<open>new URLSearchParams(text)\<close> and every server do: a leading \<open>?\<close> is dropped,
  the text is split at \<open>&\<close>, empty pieces are skipped, each piece is split at its first
  \<open>=\<close>, \<open>+\<close> becomes a space and percent escapes are decoded.
\<close>

fun split_on :: "char \<Rightarrow> string \<Rightarrow> string list" where
  "split_on d [] = [[]]"
| "split_on d (c # cs) =
     (if c = d then [] # split_on d cs
      else (case split_on d cs of x # xs \<Rightarrow> (c # x) # xs | [] \<Rightarrow> [[c]]))"

definition unhex :: "char \<Rightarrow> nat option" where
  "unhex c =
     (case index_of c hex_digits of
        Some n \<Rightarrow> Some n
      | None \<Rightarrow> map_option (\<lambda>n. n + 10) (index_of c ''abcdef''))"

fun percent_decode :: "string \<Rightarrow> string" where
  "percent_decode [] = []"
| "percent_decode (c # cs) =
     (if c = CHR ''%'' then
        (case cs of
           h1 # h2 # rest \<Rightarrow>
             (case (unhex h1, unhex h2) of
                (Some a, Some b) \<Rightarrow> char_of (a * 16 + b) # percent_decode rest
              | _ \<Rightarrow> c # percent_decode cs)
         | _ \<Rightarrow> c # percent_decode cs)
      else c # percent_decode cs)"

definition plus_to_space :: "char \<Rightarrow> char" where
  "plus_to_space c = (if c = CHR ''+'' then CHR '' '' else c)"

definition urlencoded_decode :: "string \<Rightarrow> string" where
  "urlencoded_decode s = percent_decode (map plus_to_space s)"

definition parse_pair :: "string \<Rightarrow> string \<times> string" where
  "parse_pair piece =
     (urlencoded_decode (takeWhile (\<lambda>c. c \<noteq> CHR ''='') piece),
      urlencoded_decode (drop 1 (dropWhile (\<lambda>c. c \<noteq> CHR ''='') piece)))"

definition urlencoded_parse :: "string \<Rightarrow> URLSearchParams" where
  "urlencoded_parse input = map parse_pair (filter (\<lambda>piece. piece \<noteq> []) (split_on CHR ''&'' input))"

definition URLSearchParams_of_string :: "string \<Rightarrow> URLSearchParams" where
  "URLSearchParams_of_string init =
     urlencoded_parse (case init of c # cs \<Rightarrow> if c = CHR ''?'' then cs else init | [] \<Rightarrow> init)"



section \<open>The request builder, as the specification words it\<close>

text \<open>
  "For each optional field present, append exactly one key=value pair": the pairs of a
  bundle written as one concatenation, in the order in which the code inserts them.
  These are the reference against which the statement-by-statement translations above
  are compared.
\<close>

definition size_pair :: "Size option \<Rightarrow> URLSearchParams" where
  "size_pair s = (case s of Some x \<Rightarrow> [(''size'', Size_value x)] | None \<Rightarrow> [])"

definition theme_pair :: "Theme option \<Rightarrow> URLSearchParams" where
  "theme_pair t = (case t of Some x \<Rightarrow> [(''theme'', Theme_value x)] | None \<Rightarrow> [])"

definition text_pair :: "string \<Rightarrow> string option \<Rightarrow> URLSearchParams" where
  "text_pair name v = (case v of Some x \<Rightarrow> if x = [] then [] else [(name, x)] | None \<Rightarrow> [])"

definition limit_pair :: "int option \<Rightarrow> URLSearchParams" where
  "limit_pair n = (case n of Some x \<Rightarrow> if x = 0 then [] else [(''limit'', Number_toString x)] | None \<Rightarrow> [])"

definition descending_pair :: "bool option \<Rightarrow> URLSearchParams" where
  "descending_pair d = (case d of Some x \<Rightarrow> if x then [(''descending'', ''true'')] else [] | None \<Rightarrow> [])"

definition random_pairs :: "RandomCatOptions option \<Rightarrow> string \<Rightarrow> URLSearchParams" where
  "random_pairs options rnd =
     size_pair (Option.bind options RandomCatOptions.size) @
     theme_pair (Option.bind options RandomCatOptions.theme) @
     [(''rnd'', rnd)]"

definition search_pairs :: "SearchOptions option \<Rightarrow> URLSearchParams" where
  "search_pairs options =
     text_pair ''query'' (Option.bind options query) @
     limit_pair (Option.bind options SearchOptions.limit) @
     text_pair ''from'' (Option.bind options from) @
     descending_pair (Option.bind options descending) @
     theme_pair (Option.bind options SearchOptions.theme) @
     size_pair (Option.bind options SearchOptions.size)"

definition similar_pairs :: "SimilarOptions option \<Rightarrow> URLSearchParams" where
  "similar_pairs options =
     limit_pair (Option.bind options SimilarOptions.limit) @
     size_pair (Option.bind options SimilarOptions.size)"

definition query_string :: "URLSearchParams \<Rightarrow> string" where
  "query_string params = (if params = [] then [] else ''?'' @ URLSearchParams_toString params)"

section \<open>Concrete scenarios\<close>

text \<open>
  A world in which the remote side gives the same response to every request, with a
  chosen sequence of random draws; and the responses used in the examples below.
\<close>

definition world_with :: "response \<Rightarrow> (nat \<Rightarrow> string) \<Rightarrow> world" where
  "world_with r draw = \<lparr>server = (\<lambda>n url. Inr r), requests = [], rng = draw, draws = 0\<rparr>"

definition jpeg_head :: "byte list" where
  "jpeg_head = [0xFF, 0xD8, 0xFF, 0xE0]"

definition image_reply :: response where
  "image_reply =
     \<lparr>status = 200, statusText = ''OK'', arrayBuffer_of = Inr jpeg_head,
      json_of = Inl (Rejected ''SyntaxError'')\<rparr>"

definition json_reply :: "jsval \<Rightarrow> response" where
  "json_reply v = \<lparr>status = 200, statusText = ''OK'', arrayBuffer_of = Inr [], json_of = Inr v\<rparr>"

definition not_found_reply :: response where
  "not_found_reply =
     \<lparr>status = 404, statusText = ''Not Found'', arrayBuffer_of = Inr [],
      json_of = Inl (Rejected ''SyntaxError'')\<rparr>"

definition as_base64 :: RandomCatOptions where
  "as_base64 =
     \<lparr>RandomCatOptions.size = None, RandomCatOptions.theme = None,
      RandomCatOptions.responseType = Some base64\<rparr>"

definition constant_draw :: "nat \<Rightarrow> string" where
  "constant_draw k = ''0.5''"

definition two_draws :: "nat \<Rightarrow> string" where
  "two_draws k = (if k = 0 then ''0.25'' else ''0.75'')"

text \<open>Two notions used in the proofs about the serialiser: the characters it can emit, and
  the text it emits for one pair.\<close>

definition out_chars :: "char set" where
  "out_chars = set urlencoded_safe \<union> set hex_digits \<union> {CHR ''+'', CHR ''%''}"

definition piece :: "string \<times> string \<Rightarrow> string" where
  "piece p = urlencoded_string (fst p) @ ''='' @ urlencoded_string (snd p)"

text \<open>The phrase by which the error message of each operation names it.\<close>

fun failure_phrase :: "call \<Rightarrow> string" where
  "failure_phrase (Random options) = ''fetching cat image''"
| "failure_phrase (GetById ident options) = ''fetching cat image''"
| "failure_phrase (GetInfo ident) = ''fetching cat info''"
| "failure_phrase (Search options) = ''searching for cats''"
| "failure_phrase (GetSimilar ident options) = ''fetching similar cats''"
| "failure_phrase (GetSearchCompletion options) = ''fetching completion''"
| "failure_phrase GetThemes = ''fetching themes''"
| "failure_phrase (GetCount theme') = ''fetching count''"

text \<open>Bodies and option bundles of the end-to-end scenarios.\<close>

definition themes_body :: jsval where
  "themes_body = Object [(''themes'', Array [String ''Default'', String ''Xmas''])]"

definition count_body :: jsval where
  "count_body = Object [(''count'', Number 42)]"

definition orange_medium :: SearchOptions where
  "orange_medium = no_SearchOptions\<lparr>query := Some ''orange'', SearchOptions.size := Some Medium\<rparr>"

definition newest_orange :: SearchOptions where
  "newest_orange = no_SearchOptions\<lparr>query := Some ''orange'', descending := Some True\<rparr>"

definition small_blob :: GetByIdOptions where
  "small_blob = \<lparr>GetByIdOptions.size = Some Small, GetByIdOptions.responseType = None\<rparr>"


definition as_dataUrl :: GetByIdOptions where
  "as_dataUrl = \<lparr>GetByIdOptions.size = None, GetByIdOptions.responseType = Some dataUrl\<rparr>"

section \<open>Base64: decoding undoes encoding\<close>

lemma index_of_nth:
  "distinct xs \<Longrightarrow> n < length xs \<Longrightarrow> index_of (xs ! n) xs = Some n"
proof (induction xs arbitrary: n)
  case Nil
  then show ?case by simp
next
  case (Cons y ys)
  show ?case
  proof (cases n)
    case 0
    then show ?thesis by simp
  next
    case (Suc m)
    with Cons.prems have "ys ! m \<in> set ys" "y \<notin> set ys" by auto
    then have "ys ! m \<noteq> y" by auto
    with Suc Cons show ?thesis by simp
  qed
qed

lemma distinct_b64_alphabet: "distinct b64_alphabet"
  by (simp add: b64_alphabet_def)

lemma length_b64_alphabet: "length b64_alphabet = 64"
  by (simp add: b64_alphabet_def)

lemma dec6_enc6: "n < 64 \<Longrightarrow> dec6 (enc6 n) = Some n"
  by (simp add: dec6_def enc6_def index_of_nth distinct_b64_alphabet length_b64_alphabet)

lemma pad_notin: "pad \<notin> set b64_alphabet"
  by (simp add: b64_alphabet_def pad_def)

lemma enc6_not_pad: "enc6 n \<noteq> pad"
proof -
  have "enc6 n \<in> set b64_alphabet"
    unfolding enc6_def by (rule nth_mem) (simp add: length_b64_alphabet)
  with pad_notin show ?thesis by auto
qed

lemma byte_lt: "unat (a :: byte) < 256"
  using unsigned_less [of a, where ?'a = nat] by simp

lemma sext1: "unat (a::byte) div 4 < 64"
  using byte_lt [of a] by simp
lemma sext2: "(unat (a::byte) mod 4) * 16 + unat (b::byte) div 16 < 64"
  using byte_lt [of b] by simp
lemma sext3: "(unat (b::byte) mod 16) * 4 + unat (c::byte) div 64 < 64"
  using byte_lt [of c] by simp

lemma byte1: "of_nat (unat (a::byte) div 4 * 4 + ((unat a mod 4) * 16 + unat (b::byte) div 16) div 16) = a"
proof -
  have "unat b div 16 < 16" using byte_lt [of b] by simp
  then have "((unat a mod 4) * 16 + unat b div 16) div 16 = unat a mod 4" by simp
  then show ?thesis by simp
qed


lemma byte2: "of_nat ((((unat (a::byte) mod 4) * 16 + unat (b::byte) div 16) mod 16) * 16 + ((unat b mod 16) * 4 + unat (c::byte) div 64) div 4) = b"
proof -
  have c: "unat c div 64 < 4" using byte_lt [of c] by simp
  have "((unat a mod 4) * 16 + unat b div 16) mod 16 = unat b div 16"
    using byte_lt [of b] by simp
  moreover have "((unat b mod 16) * 4 + unat c div 64) div 4 = unat b mod 16"
    using c by simp
  ultimately show ?thesis by simp
qed

lemma byte3: "of_nat ((((unat (b::byte) mod 16) * 4 + unat (c::byte) div 64) mod 4) * 64 + unat c mod 64) = c"
proof -
  have c: "unat c div 64 < 4" using byte_lt [of c] by simp
  then have "((unat b mod 16) * 4 + unat c div 64) mod 4 = unat c div 64" by simp
  then show ?thesis by simp
qed

lemma byte2': "of_nat ((((unat (a::byte) mod 4) * 16 + unat (b::byte) div 16) mod 16) * 16 + ((unat b mod 16) * 4) div 4) = b"
proof -
  have "((unat a mod 4) * 16 + unat b div 16) mod 16 = unat b div 16"
    using byte_lt [of b] by simp
  then show ?thesis by simp
qed

lemma byte1': "of_nat (unat (a::byte) div 4 * 4 + ((unat a mod 4) * 16) div 16) = a"
  by simp


lemma decode_full:
  assumes "dec6 c1 = Some s1" "dec6 c2 = Some s2" "dec6 c3 = Some s3" "dec6 c4 = Some s4" "c4 \<noteq> pad"
  shows "b64_decode (c1 # c2 # c3 # c4 # rest) =
     (case b64_decode rest of
        None \<Rightarrow> None
      | Some bs \<Rightarrow>
          Some (of_nat (s1 * 4 + s2 div 16) #
                of_nat ((s2 mod 16) * 16 + s3 div 4) #
                of_nat ((s3 mod 4) * 64 + s4) # bs))"
  using assms by simp

lemma decode_two:
  assumes "dec6 c1 = Some s1" "dec6 c2 = Some s2" "dec6 c3 = Some s3" "c3 \<noteq> pad"
  shows "b64_decode [c1, c2, c3, pad] =
     Some [of_nat (s1 * 4 + s2 div 16), of_nat ((s2 mod 16) * 16 + s3 div 4)]"
  using assms by simp

lemma decode_one:
  assumes "dec6 c1 = Some s1" "dec6 c2 = Some s2"
  shows "b64_decode [c1, c2, pad, pad] = Some [of_nat (s1 * 4 + s2 div 16)]"
  using assms by simp

lemma b64_roundtrip: "b64_decode (b64_encode bs) = Some bs"
proof (induction bs rule: b64_encode.induct)
  case (1 a b c rest)
  have s4: "unat c mod 64 < 64" by simp
  show ?case
    unfolding b64_encode.simps append_Cons append_Nil
    by (subst decode_full [OF dec6_enc6 [OF sext1] dec6_enc6 [OF sext2] dec6_enc6 [OF sext3]
          dec6_enc6 [OF s4] enc6_not_pad])
       (simp only: byte1 byte2 byte3 1 option.case)
next
  case (2 a b)
  have s3: "(unat b mod 16) * 4 < 64" by simp
  show ?case
    unfolding b64_encode.simps pad_def [symmetric]
    by (subst decode_two [OF dec6_enc6 [OF sext1] dec6_enc6 [OF sext2] dec6_enc6 [OF s3] enc6_not_pad])
       (simp only: byte1 byte2')
next
  case (3 a)
  have s2: "(unat a mod 4) * 16 < 64" by simp
  show ?case
    unfolding b64_encode.simps pad_def [symmetric]
    by (subst decode_one [OF dec6_enc6 [OF sext1] dec6_enc6 [OF s2]])
       (simp only: byte1')
next
  case 4
  then show ?case by simp
qed

section \<open>The response shaper on bytes\<close>

lemma binary_of_eq: "binary_of bytes binary = binary @ map fromCharCode bytes"
  by (induction bytes arbitrary: binary) simp_all


lemma fromCharCode_le: "\<not> 255 < fromCharCode b"
proof -
  have lt: "unat b < 256" by (rule byte_lt)
  then have "unat b < 2 ^ 16" by simp
  then have "unat (ucast b :: code_unit) = unat b"
    by (simp add: unsigned_ucast_eq take_bit_nat_eq_self del: unsigned_less)
  with lt show ?thesis
    by (simp add: fromCharCode_def word_less_nat_alt)
qed

lemma ucast_fromCharCode: "ucast (fromCharCode b) = b"
  unfolding fromCharCode_def by (rule ucast_up_ucast_id) (simp add: is_up)

lemma btoa_bytes: "btoa (binary_of bytes []) = Inr (b64_encode bytes)"
  by (simp add: btoa_def binary_of_eq fromCharCode_le ucast_fromCharCode comp_def)

lemma toResponseType_base64: "toResponseType bytes (Some base64) = Inr (Text (b64_encode bytes))"
  by (simp add: toResponseType_def btoa_bytes)

lemma toResponseType_dataUrl:
  "toResponseType bytes (Some dataUrl) = Inr (Text (''data:image/jpeg;base64,'' @ b64_encode bytes))"
  by (simp add: toResponseType_def btoa_bytes)

section \<open>What each operation requests and returns\<close>

lemma set_fresh: "name \<notin> fst ` set ps \<Longrightarrow> URLSearchParams_set ps name v = ps @ [(name, v)]"
  by (simp add: URLSearchParams_set_def)

lemma fst_fetch: "fst (fetch u w) = server w (length (requests w)) u"
  by (simp add: fetch_def)

lemma snd_fetch: "snd (fetch u w) = w\<lparr>requests := requests w @ [u]\<rparr>"
  by (simp add: fetch_def)

lemma getById_requests:
  "requests (snd (getById ident options w)) =
     requests w @ [ApiUrl @ ''/cat/'' @ ident @ ''?size='' @
        Size_value (case Option.bind options GetByIdOptions.size of None \<Rightarrow> Large | Some s \<Rightarrow> s)]"
  by (simp add: getById_def fetch_def Let_def split: sum.splits)

lemma getById_result:
  assumes "answer_to (getById ident options) w = Inr r"
  shows "fst (getById ident options w) =
     (if \<not> ok r then Inl (Error (''Error fetching cat image: '' @ statusText r))
      else case arrayBuffer_of r of
             Inl e \<Rightarrow> Inl e
           | Inr buffer \<Rightarrow>
               toResponseType buffer
                 (Some (case Option.bind options GetByIdOptions.responseType of None \<Rightarrow> blob | Some t \<Rightarrow> t)))"
  using assms
  by (simp add: answer_to_def request_of_def getById_requests)
     (simp add: getById_def fetch_def Let_def split: sum.splits)


lemma Size_value_nonempty: "Size_value s \<noteq> []"
  by (cases s) simp_all

lemma Theme_value_nonempty: "Theme_value t \<noteq> []"
  by (cases t) simp_all

lemma keys_size_pair: "fst ` set (size_pair s) \<subseteq> {''size''}"
  by (auto simp: size_pair_def split: option.splits)

lemma keys_theme_pair: "fst ` set (theme_pair s) \<subseteq> {''theme''}"
  by (auto simp: theme_pair_def split: option.splits)

lemma keys_text_pair: "fst ` set (text_pair name v) \<subseteq> {name}"
  by (auto simp: text_pair_def split: option.splits)

lemma keys_limit_pair: "fst ` set (limit_pair n) \<subseteq> {''limit''}"
  by (auto simp: limit_pair_def split: option.splits)

lemma keys_descending_pair: "fst ` set (descending_pair n) \<subseteq> {''descending''}"
  by (auto simp: descending_pair_def split: option.splits)

lemma step_size:
  "''size'' \<notin> fst ` set ps \<Longrightarrow>
   (case s of Some x \<Rightarrow> if Size_value x \<noteq> [] then URLSearchParams_set ps ''size'' (Size_value x) else ps
            | None \<Rightarrow> ps) = ps @ size_pair s"
  by (simp add: size_pair_def set_fresh Size_value_nonempty split: option.splits)

lemma step_theme:
  "''theme'' \<notin> fst ` set ps \<Longrightarrow>
   (case t of Some x \<Rightarrow> if Theme_value x \<noteq> [] then URLSearchParams_set ps ''theme'' (Theme_value x) else ps
            | None \<Rightarrow> ps) = ps @ theme_pair t"
  by (simp add: theme_pair_def set_fresh Theme_value_nonempty split: option.splits)

lemma step_text:
  "name \<notin> fst ` set ps \<Longrightarrow>
   (case v of Some x \<Rightarrow> if x \<noteq> [] then URLSearchParams_set ps name x else ps
            | None \<Rightarrow> ps) = ps @ text_pair name v"
  by (simp add: text_pair_def set_fresh split: option.splits)

lemma step_limit:
  "''limit'' \<notin> fst ` set ps \<Longrightarrow>
   (case n of Some x \<Rightarrow> if x \<noteq> 0 then URLSearchParams_set ps ''limit'' (Number_toString x) else ps
            | None \<Rightarrow> ps) = ps @ limit_pair n"
  by (simp add: limit_pair_def set_fresh split: option.splits)

lemma step_descending:
  "''descending'' \<notin> fst ` set ps \<Longrightarrow>
   (case d of Some x \<Rightarrow> if x then URLSearchParams_set ps ''descending'' ''true'' else ps
            | None \<Rightarrow> ps) = ps @ descending_pair d"
  by (simp add: descending_pair_def set_fresh split: option.splits)

lemma toString_nonempty: "ps \<noteq> [] \<Longrightarrow> URLSearchParams_toString ps \<noteq> []"
proof (cases ps)
  case Nil
  then show "ps \<noteq> [] \<Longrightarrow> ?thesis" by simp
next
  case (Cons p qs)
  then show ?thesis by (cases qs) (simp_all add: URLSearchParams_toString_def)
qed

lemma toString_Nil: "URLSearchParams_toString [] = []"
  by (simp add: URLSearchParams_toString_def)

lemma query_string_eq:
  "(if URLSearchParams_toString ps \<noteq> [] then ''?'' @ URLSearchParams_toString ps else []) = query_string ps"
  by (cases "ps = []") (simp_all add: query_string_def toString_Nil toString_nonempty)

lemma random_params:
  "URLSearchParams_set
     (case Option.bind options RandomCatOptions.theme of
        Some t \<Rightarrow> if Theme_value t \<noteq> [] then
            URLSearchParams_set
              (case Option.bind options RandomCatOptions.size of
                 Some s \<Rightarrow> if Size_value s \<noteq> [] then URLSearchParams_set [] ''size'' (Size_value s) else []
               | None \<Rightarrow> []) ''theme'' (Theme_value t)
          else (case Option.bind options RandomCatOptions.size of
                 Some s \<Rightarrow> if Size_value s \<noteq> [] then URLSearchParams_set [] ''size'' (Size_value s) else []
               | None \<Rightarrow> [])
      | None \<Rightarrow> (case Option.bind options RandomCatOptions.size of
                 Some s \<Rightarrow> if Size_value s \<noteq> [] then URLSearchParams_set [] ''size'' (Size_value s) else []
               | None \<Rightarrow> [])) ''rnd'' rnd = random_pairs options rnd"
proof -
  have a: "(case Option.bind options RandomCatOptions.size of
                 Some s \<Rightarrow> if Size_value s \<noteq> [] then URLSearchParams_set [] ''size'' (Size_value s) else []
               | None \<Rightarrow> []) = size_pair (Option.bind options RandomCatOptions.size)"
    using step_size [of "[]"] by simp
  have k1: "''theme'' \<notin> fst ` set (size_pair (Option.bind options RandomCatOptions.size))"
    using keys_size_pair [of "Option.bind options RandomCatOptions.size"] by auto
  have k2: "''rnd'' \<notin> fst ` set (size_pair (Option.bind options RandomCatOptions.size) @
        theme_pair (Option.bind options RandomCatOptions.theme))"
    using keys_size_pair [of "Option.bind options RandomCatOptions.size"]
      keys_theme_pair [of "Option.bind options RandomCatOptions.theme"] by auto
  show ?thesis
    unfolding a step_theme [OF k1] set_fresh [OF k2] random_pairs_def by simp
qed

lemma random_requests:
  "requests (snd (random options w)) =
     requests w @ [ApiUrl @ ''/cat'' @ query_string (random_pairs options (rng w (draws w)))]"
  by (simp add: random_def Math_random_toString_def fetch_def Let_def query_string_eq random_params
      split: sum.splits)


lemma random_result:
  assumes "answer_to (random options) w = Inr r"
  shows "fst (random options w) =
     (if \<not> ok r then Inl (Error (''Error fetching cat image: '' @ statusText r))
      else case arrayBuffer_of r of
             Inl e \<Rightarrow> Inl e
           | Inr buffer \<Rightarrow>
               toResponseType buffer
                 (Some (case Option.bind options RandomCatOptions.responseType of None \<Rightarrow> blob | Some t \<Rightarrow> t)))"
proof -
  have "server w (length (requests w))
          (ApiUrl @ ''/cat'' @ query_string (random_pairs options (rng w (draws w)))) = Inr r"
    using assms by (simp add: answer_to_def request_of_def random_requests)
  then show ?thesis
    by (simp add: random_def Math_random_toString_def fetch_def Let_def query_string_eq random_params
        split: sum.splits)
qed

section \<open>Round trip of the encoded shapes\<close>

text \<open>
  Claim C1. Whatever bytes a successful response to \<^verbatim>\<open>random\<close> or \<^verbatim>\<open>getById\<close> delivers,
  the \<^verbatim>\<open>base64\<close> shape is the base64 text of exactly those bytes, the \<^verbatim>\<open>dataUrl\<close> shape
  is \<^verbatim>\<open>data:image/jpeg;base64,\<close> followed by that same text, and decoding the text (after
  stripping the prefix, for a data URL) gives the bytes back.
\<close>

theorem image_encoding_round_trip:
  assumes "ok r" and "arrayBuffer_of r = Inr bytes"
  shows
    "(answer_to (random (Some ropts)) w = Inr r \<and> RandomCatOptions.responseType ropts = Some base64 \<longrightarrow>
        fst (random (Some ropts) w) = Inr (Text (b64_encode bytes))) \<and>
     (answer_to (random (Some ropts)) w = Inr r \<and> RandomCatOptions.responseType ropts = Some dataUrl \<longrightarrow>
        fst (random (Some ropts) w) = Inr (Text (''data:image/jpeg;base64,'' @ b64_encode bytes))) \<and>
     (answer_to (getById ident (Some gopts)) w = Inr r \<and> GetByIdOptions.responseType gopts = Some base64 \<longrightarrow>
        fst (getById ident (Some gopts) w) = Inr (Text (b64_encode bytes))) \<and>
     (answer_to (getById ident (Some gopts)) w = Inr r \<and> GetByIdOptions.responseType gopts = Some dataUrl \<longrightarrow>
        fst (getById ident (Some gopts) w) = Inr (Text (''data:image/jpeg;base64,'' @ b64_encode bytes))) \<and>
     b64_decode (b64_encode bytes) = Some bytes \<and>
     b64_decode (drop (length ''data:image/jpeg;base64,'') (''data:image/jpeg;base64,'' @ b64_encode bytes))
       = Some bytes"
proof -
  have dec: "b64_decode (b64_encode bytes) = Some bytes" by (rule b64_roundtrip)
  have r1: "answer_to (random (Some ropts)) w = Inr r \<Longrightarrow>
      fst (random (Some ropts) w) =
        toResponseType bytes (Some (case RandomCatOptions.responseType ropts of None \<Rightarrow> blob | Some t \<Rightarrow> t))"
    using assms by (simp add: random_result)
  have r2: "answer_to (getById ident (Some gopts)) w = Inr r \<Longrightarrow>
      fst (getById ident (Some gopts) w) =
        toResponseType bytes (Some (case GetByIdOptions.responseType gopts of None \<Rightarrow> blob | Some t \<Rightarrow> t))"
    using assms by (simp add: getById_result)
  show ?thesis
    using dec r1 r2 by (simp add: toResponseType_base64 toResponseType_dataUrl)
qed

text \<open>The first four bytes of a JPEG file, requested as \<^verbatim>\<open>base64\<close>.\<close>

lemma b64_jpeg_head: "b64_encode jpeg_head = ''/9j/4A==''"
  by (simp add: jpeg_head_def enc6_def b64_alphabet_def)

lemma answer_world_with: "answer_to f (world_with r d) = Inr r"
  by (simp add: answer_to_def world_with_def)

theorem image_encoding_round_trip_witness:
  "ok image_reply \<and> arrayBuffer_of image_reply = Inr jpeg_head \<and>
   answer_to (random (Some as_base64)) (world_with image_reply constant_draw) = Inr image_reply \<and>
   RandomCatOptions.responseType as_base64 = Some base64 \<and>
   fst (random (Some as_base64) (world_with image_reply constant_draw)) = Inr (Text ''/9j/4A=='') \<and>
   answer_to (getById ''a1'' (Some as_dataUrl)) (world_with image_reply constant_draw) = Inr image_reply \<and>
   GetByIdOptions.responseType as_dataUrl = Some dataUrl \<and>
   fst (getById ''a1'' (Some as_dataUrl) (world_with image_reply constant_draw)) =
     Inr (Text ''data:image/jpeg;base64,/9j/4A=='') \<and>
   b64_decode ''/9j/4A=='' = Some jpeg_head"
proof -
  have a: "ok image_reply" by (simp add: ok_def image_reply_def)
  have b: "arrayBuffer_of image_reply = Inr jpeg_head" by (simp add: image_reply_def)
  have c: "RandomCatOptions.responseType as_base64 = Some base64" by (simp add: as_base64_def)
  have d: "GetByIdOptions.responseType as_dataUrl = Some dataUrl" by (simp add: as_dataUrl_def)
  show ?thesis
    using image_encoding_round_trip [OF a b, where ropts = as_base64 and gopts = as_dataUrl
        and ident = "''a1''" and w = "world_with image_reply constant_draw"]
    by (simp add: a b c d answer_world_with b64_jpeg_head)
qed

section \<open>Each operation in closed form\<close>

text \<open>
  The statement-by-statement translations agree with the request builder of the
  specification: the parameters built by the successive \<^verbatim>\<open>set\<close> calls are the
  concatenation of the pairs of the fields, and each operation is one \<^verbatim>\<open>fetch\<close> of the
  resulting URL followed by the handling of the answer.
\<close>

lemma search_params:
  fixes options :: SearchOptions
  defines "p1 \<equiv> (case query options of
                      Some q \<Rightarrow> if q \<noteq> [] then URLSearchParams_set [] ''query'' q else []
                    | None \<Rightarrow> [])"
  defines "p2 \<equiv> (case SearchOptions.limit options of
                      Some n \<Rightarrow> if n \<noteq> 0 then URLSearchParams_set p1 ''limit'' (Number_toString n) else p1
                    | None \<Rightarrow> p1)"
  defines "p3 \<equiv> (case from options of
                      Some f \<Rightarrow> if f \<noteq> [] then URLSearchParams_set p2 ''from'' f else p2
                    | None \<Rightarrow> p2)"
  defines "p4 \<equiv> (case descending options of
                      Some d \<Rightarrow> if d then URLSearchParams_set p3 ''descending'' ''true'' else p3
                    | None \<Rightarrow> p3)"
  defines "p5 \<equiv> (case SearchOptions.theme options of
                      Some t \<Rightarrow> if Theme_value t \<noteq> [] then URLSearchParams_set p4 ''theme'' (Theme_value t) else p4
                    | None \<Rightarrow> p4)"
  defines "p6 \<equiv> (case SearchOptions.size options of
                      Some s \<Rightarrow> if Size_value s \<noteq> [] then URLSearchParams_set p5 ''size'' (Size_value s) else p5
                    | None \<Rightarrow> p5)"
  shows "p6 = search_pairs (Some options)"
proof -
  have e1: "p1 = text_pair ''query'' (query options)"
    unfolding p1_def using step_text [of "''query''" "[]" "query options"] by simp
  have k2: "''limit'' \<notin> fst ` set p1"
    unfolding e1 using keys_text_pair [of "''query''" "query options"] by auto
  have e2: "p2 = p1 @ limit_pair (SearchOptions.limit options)"
    unfolding p2_def by (rule step_limit [OF k2])
  have k3: "''from'' \<notin> fst ` set p2"
    unfolding e2 e1 using keys_text_pair [of "''query''" "query options"]
      keys_limit_pair [of "SearchOptions.limit options"] by auto
  have e3: "p3 = p2 @ text_pair ''from'' (from options)"
    unfolding p3_def by (rule step_text [OF k3])
  have k4: "''descending'' \<notin> fst ` set p3"
    unfolding e3 e2 e1 using keys_text_pair [of "''query''" "query options"]
      keys_limit_pair [of "SearchOptions.limit options"]
      keys_text_pair [of "''from''" "from options"] by auto
  have e4: "p4 = p3 @ descending_pair (descending options)"
    unfolding p4_def by (rule step_descending [OF k4])
  have k5: "''theme'' \<notin> fst ` set p4"
    unfolding e4 e3 e2 e1 using keys_text_pair [of "''query''" "query options"]
      keys_limit_pair [of "SearchOptions.limit options"]
      keys_text_pair [of "''from''" "from options"]
      keys_descending_pair [of "descending options"] by auto
  have e5: "p5 = p4 @ theme_pair (SearchOptions.theme options)"
    unfolding p5_def by (rule step_theme [OF k5])
  have k6: "''size'' \<notin> fst ` set p5"
    unfolding e5 e4 e3 e2 e1 using keys_text_pair [of "''query''" "query options"]
      keys_limit_pair [of "SearchOptions.limit options"]
      keys_text_pair [of "''from''" "from options"]
      keys_descending_pair [of "descending options"]
      keys_theme_pair [of "SearchOptions.theme options"] by auto
  have e6: "p6 = p5 @ size_pair (SearchOptions.size options)"
    unfolding p6_def by (rule step_size [OF k6])
  show ?thesis
    unfolding e6 e5 e4 e3 e2 e1 by (simp add: search_pairs_def)
qed

lemma search_pairs_None: "search_pairs None = search_pairs (Some no_SearchOptions)"
  by (simp add: search_pairs_def no_SearchOptions_def)

lemma search_pairs_default:
  "search_pairs (Some (case options' of None \<Rightarrow> no_SearchOptions | Some opts \<Rightarrow> opts)) = search_pairs options'"
  by (cases options') (simp_all add: search_pairs_None)

lemma search_unfold:
  "search options' w =
     (let u = ApiUrl @ ''/cat/search'' @ query_string (search_pairs options');
          w' = w\<lparr>requests := requests w @ [u]\<rparr>
      in case server w (length (requests w)) u of
           Inl e \<Rightarrow> (Inl e, w')
         | Inr r \<Rightarrow>
             if \<not> ok r then (Inl (Error (''Error searching for cats: '' @ statusText r)), w')
             else (json_of r, w'))"
  unfolding search_def Let_def query_string_eq search_params search_pairs_default
  by (simp add: fetch_def split: sum.splits)

lemma getSearchCompletion_unfold:
  "getSearchCompletion options' w =
     (let u = ApiUrl @ ''/cat/search-completion'' @ query_string (search_pairs options');
          w' = w\<lparr>requests := requests w @ [u]\<rparr>
      in case server w (length (requests w)) u of
           Inl e \<Rightarrow> (Inl e, w')
         | Inr r \<Rightarrow>
             if \<not> ok r then (Inl (Error (''Error fetching completion: '' @ statusText r)), w')
             else (case json_of r of
                     Inl e \<Rightarrow> (Inl e, w')
                   | Inr data \<Rightarrow> (get_prop data ''completion'', w')))"
  unfolding getSearchCompletion_def Let_def query_string_eq search_params search_pairs_default
  by (simp add: fetch_def split: sum.splits)

lemma similar_params:
  fixes options :: "SimilarOptions option"
  defines "p1 \<equiv> (case Option.bind options SimilarOptions.limit of
                      Some n \<Rightarrow> if n \<noteq> 0 then URLSearchParams_set [] ''limit'' (Number_toString n) else []
                    | None \<Rightarrow> [])"
  defines "p2 \<equiv> (case Option.bind options SimilarOptions.size of
                      Some s \<Rightarrow> if Size_value s \<noteq> [] then URLSearchParams_set p1 ''size'' (Size_value s) else p1
                    | None \<Rightarrow> p1)"
  shows "p2 = similar_pairs options"
proof -
  have e1: "p1 = limit_pair (Option.bind options SimilarOptions.limit)"
    unfolding p1_def using step_limit [of "[]" "Option.bind options SimilarOptions.limit"] by simp
  have k2: "''size'' \<notin> fst ` set p1"
    unfolding e1 using keys_limit_pair [of "Option.bind options SimilarOptions.limit"] by auto
  have e2: "p2 = p1 @ size_pair (Option.bind options SimilarOptions.size)"
    unfolding p2_def by (rule step_size [OF k2])
  show ?thesis
    unfolding e2 e1 by (simp add: similar_pairs_def)
qed

lemma getSimilar_unfold:
  "getSimilar ident options w =
     (let u = ApiUrl @ ''/cat/similar/'' @ ident @ query_string (similar_pairs options);
          w' = w\<lparr>requests := requests w @ [u]\<rparr>
      in case server w (length (requests w)) u of
           Inl e \<Rightarrow> (Inl e, w')
         | Inr r \<Rightarrow>
             if \<not> ok r then (Inl (Error (''Error fetching similar cats: '' @ statusText r)), w')
             else (json_of r, w'))"
  unfolding getSimilar_def Let_def query_string_eq similar_params
  by (simp add: fetch_def split: sum.splits)

lemma random_unfold:
  "random options w =
     (let u = ApiUrl @ ''/cat'' @ query_string (random_pairs options (rng w (draws w)));
          w' = w\<lparr>draws := Suc (draws w), requests := requests w @ [u]\<rparr>
      in case server w (length (requests w)) u of
           Inl e \<Rightarrow> (Inl e, w')
         | Inr r \<Rightarrow>
             if \<not> ok r then (Inl (Error (''Error fetching cat image: '' @ statusText r)), w')
             else (case arrayBuffer_of r of
                     Inl e \<Rightarrow> (Inl e, w')
                   | Inr buffer \<Rightarrow>
                       (toResponseType buffer
                          (Some (case Option.bind options RandomCatOptions.responseType of
                                   None \<Rightarrow> blob | Some t \<Rightarrow> t)), w')))"
  by (simp add: random_def Math_random_toString_def fetch_def Let_def query_string_eq random_params
      split: sum.splits)

lemma getById_unfold:
  "getById ident options w =
     (let u = ApiUrl @ ''/cat/'' @ ident @ ''?size='' @
                Size_value (case Option.bind options GetByIdOptions.size of None \<Rightarrow> Large | Some s \<Rightarrow> s);
          w' = w\<lparr>requests := requests w @ [u]\<rparr>
      in case server w (length (requests w)) u of
           Inl e \<Rightarrow> (Inl e, w')
         | Inr r \<Rightarrow>
             if \<not> ok r then (Inl (Error (''Error fetching cat image: '' @ statusText r)), w')
             else (case arrayBuffer_of r of
                     Inl e \<Rightarrow> (Inl e, w')
                   | Inr buffer \<Rightarrow>
                       (toResponseType buffer
                          (Some (case Option.bind options GetByIdOptions.responseType of
                                   None \<Rightarrow> blob | Some t \<Rightarrow> t)), w')))"
  by (simp add: getById_def fetch_def Let_def split: sum.splits)

lemma getInfo_unfold:
  "getInfo ident w =
     (let u = ApiUrl @ ''/cat/info/'' @ ident;
          w' = w\<lparr>requests := requests w @ [u]\<rparr>
      in case server w (length (requests w)) u of
           Inl e \<Rightarrow> (Inl e, w')
         | Inr r \<Rightarrow>
             if \<not> ok r then (Inl (Error (''Error fetching cat info: '' @ statusText r)), w')
             else (json_of r, w'))"
  by (simp add: getInfo_def fetch_def Let_def split: sum.splits)

lemma getThemes_unfold:
  "getThemes w =
     (let u = ApiUrl @ ''/cat/theme-list'';
          w' = w\<lparr>requests := requests w @ [u]\<rparr>
      in case server w (length (requests w)) u of
           Inl e \<Rightarrow> (Inl e, w')
         | Inr r \<Rightarrow>
             if \<not> ok r then (Inl (Error (''Error fetching themes: '' @ statusText r)), w')
             else (case json_of r of
                     Inl e \<Rightarrow> (Inl e, w')
                   | Inr data \<Rightarrow> (get_prop data ''themes'', w')))"
  by (simp add: getThemes_def fetch_def Let_def split: sum.splits)

lemma getCount_unfold:
  "getCount theme' w =
     (let u = ApiUrl @ ''/cat/count'' @
                (case theme' of Some t \<Rightarrow> ''?theme='' @ Theme_value t | None \<Rightarrow> []);
          w' = w\<lparr>requests := requests w @ [u]\<rparr>
      in case server w (length (requests w)) u of
           Inl e \<Rightarrow> (Inl e, w')
         | Inr r \<Rightarrow>
             if \<not> ok r then (Inl (Error (''Error fetching count: '' @ statusText r)), w')
             else (case json_of r of
                     Inl e \<Rightarrow> (Inl e, w')
                   | Inr data \<Rightarrow> (get_prop data ''count'', w')))"
  by (cases theme') (simp_all add: getCount_def fetch_def Let_def Theme_value_nonempty split: sum.splits)

section \<open>Parsing a serialised query string gives the pairs back\<close>

lemma distinct_hex_digits: "distinct hex_digits"
  by (simp add: hex_digits_def)

lemma length_hex_digits: "length hex_digits = 16"
  by (simp add: hex_digits_def)

lemma unhex_hex: "n < 16 \<Longrightarrow> unhex (hex_digits ! n) = Some n"
  by (simp add: unhex_def index_of_nth distinct_hex_digits length_hex_digits)

lemma hex_in_set: "n < 16 \<Longrightarrow> hex_digits ! n \<in> set hex_digits"
  by (simp add: length_hex_digits)

lemma plus_notin_hex: "CHR ''+'' \<notin> set hex_digits"
  by (simp add: hex_digits_def)

lemma hex_not_plus: "n < 16 \<Longrightarrow> plus_to_space (hex_digits ! n) = hex_digits ! n"
  using hex_in_set [of n] plus_notin_hex by (auto simp: plus_to_space_def)

lemma percent_decode_plain: "c \<noteq> CHR ''%'' \<Longrightarrow> percent_decode (c # cs) = c # percent_decode cs"
  by simp

lemma percent_decode_escape:
  "unhex h1 = Some a \<Longrightarrow> unhex h2 = Some b \<Longrightarrow>
   percent_decode (CHR ''%'' # h1 # h2 # rest) = char_of (a * 16 + b) # percent_decode rest"
  by simp

lemma char_of_hex_parts: "char_of ((of_char c :: nat) div 16 * 16 + (of_char c :: nat) mod 16) = c"
  by simp

lemma of_char_div16: "(of_char c :: nat) div 16 < 16"
  using nat_of_char_less_256 [of c] by arith

lemma safe_not_special: "c \<in> set urlencoded_safe \<Longrightarrow> c \<noteq> CHR ''%'' \<and> c \<noteq> CHR ''+''"
  by (auto simp: urlencoded_safe_def)

lemma decode_byte:
  "urlencoded_decode (urlencoded_byte c @ s) = c # urlencoded_decode s"
proof -
  consider "c = CHR '' ''" | "c \<noteq> CHR '' ''" "c \<in> set urlencoded_safe"
    | "c \<noteq> CHR '' ''" "c \<notin> set urlencoded_safe" by blast
  then show ?thesis
  proof cases
    case 1
    then show ?thesis
      by (simp add: urlencoded_decode_def urlencoded_byte_def plus_to_space_def)
  next
    case 2
    with safe_not_special [of c] show ?thesis
      by (simp add: urlencoded_decode_def urlencoded_byte_def plus_to_space_def)
  next
    case 3
    have m: "(of_char c :: nat) mod 16 < 16" by simp
    have pc: "plus_to_space CHR ''%'' = CHR ''%''"
      by (simp add: plus_to_space_def)
    have enc: "urlencoded_byte c = [CHR ''%'', hex_digits ! ((of_char c :: nat) div 16),
        hex_digits ! ((of_char c :: nat) mod 16)]"
      using 3 by (simp add: urlencoded_byte_def percent_encode_byte_def)
    have "map plus_to_space (urlencoded_byte c @ s) =
        CHR ''%'' # hex_digits ! ((of_char c :: nat) div 16) #
          hex_digits ! ((of_char c :: nat) mod 16) # map plus_to_space s"
      unfolding enc by (simp add: pc hex_not_plus [OF of_char_div16] hex_not_plus [OF m])
    then have "urlencoded_decode (urlencoded_byte c @ s) =
        percent_decode (CHR ''%'' # hex_digits ! ((of_char c :: nat) div 16) #
          hex_digits ! ((of_char c :: nat) mod 16) # map plus_to_space s)"
      by (simp only: urlencoded_decode_def)
    also have "\<dots> = char_of ((of_char c :: nat) div 16 * 16 + (of_char c :: nat) mod 16) #
        percent_decode (map plus_to_space s)"
      by (rule percent_decode_escape [OF unhex_hex [OF of_char_div16] unhex_hex [OF m]])
    finally show ?thesis
      by (simp only: char_of_hex_parts urlencoded_decode_def)
  qed
qed

lemma decode_Nil: "urlencoded_decode [] = []"
  by (simp add: urlencoded_decode_def)

lemma urlencoded_round_trip: "urlencoded_decode (urlencoded_string s) = s"
proof (induction s)
  case Nil
  then show ?case by (simp add: urlencoded_string_def decode_Nil)
next
  case (Cons c s)
  have "urlencoded_string (c # s) = urlencoded_byte c @ urlencoded_string s"
    by (simp add: urlencoded_string_def)
  with Cons show ?case by (simp only: decode_byte)
qed

lemma urlencoded_string_inj: "urlencoded_string a = urlencoded_string b \<Longrightarrow> a = b"
  by (metis urlencoded_round_trip)

lemma byte_out_chars: "set (urlencoded_byte c) \<subseteq> out_chars"
  using hex_in_set [OF of_char_div16, of c] hex_in_set [of "(of_char c :: nat) mod 16"]
  by (auto simp: urlencoded_byte_def percent_encode_byte_def out_chars_def)

lemma string_out_chars: "set (urlencoded_string s) \<subseteq> out_chars"
  using byte_out_chars by (auto simp: urlencoded_string_def)

lemma amp_notin_out: "CHR ''&'' \<notin> out_chars"
  by (simp add: out_chars_def urlencoded_safe_def hex_digits_def)

lemma eq_notin_out: "CHR ''='' \<notin> out_chars"
  by (simp add: out_chars_def urlencoded_safe_def hex_digits_def)

lemma no_amp: "CHR ''&'' \<notin> set (urlencoded_string s)"
  using string_out_chars [of s] amp_notin_out by auto

lemma no_eq: "CHR ''='' \<notin> set (urlencoded_string s)"
  using string_out_chars [of s] eq_notin_out by auto


lemma split_on_nonempty: "split_on d s \<noteq> []"
  by (induction s) (auto split: list.splits)

lemma split_on_free: "d \<notin> set x \<Longrightarrow> split_on d x = [x]"
  by (induction x) auto

lemma split_on_append: "d \<notin> set x \<Longrightarrow> split_on d (x @ d # rest) = x # split_on d rest"
  by (induction x) (auto split: list.splits simp: split_on_nonempty)

lemma split_on_join_Cons:
  "\<forall>x \<in> set (y # ys). d \<notin> set x \<Longrightarrow> split_on d (join_with [d] (y # ys)) = y # ys"
proof (induction ys arbitrary: y)
  case Nil
  then show ?case by (simp add: split_on_free)
next
  case (Cons z zs)
  then have "split_on d (join_with [d] (z # zs)) = z # zs" by simp
  moreover have "d \<notin> set y" using Cons.prems by simp
  ultimately show ?case by (simp add: split_on_append)
qed

lemma split_on_join:
  "segs \<noteq> [] \<Longrightarrow> \<forall>x \<in> set segs. d \<notin> set x \<Longrightarrow> split_on d (join_with [d] segs) = segs"
  by (cases segs) (simp_all only: split_on_join_Cons list.distinct not_False_eq_True)

lemma piece_no_amp: "CHR ''&'' \<notin> set (piece p)"
  using no_amp by (simp add: piece_def)

lemma piece_nonempty: "piece p \<noteq> []"
  by (simp add: piece_def)

lemma parse_piece: "parse_pair (piece p) = p"
proof -
  have a: "takeWhile (\<lambda>c. c \<noteq> CHR ''='') (piece p) = urlencoded_string (fst p)"
    unfolding piece_def using no_eq [of "fst p"]
    by (subst takeWhile_append2) auto
  have b: "dropWhile (\<lambda>c. c \<noteq> CHR ''='') (piece p) = ''='' @ urlencoded_string (snd p)"
    unfolding piece_def using no_eq [of "fst p"]
    by (subst dropWhile_append2) auto
  show ?thesis
    by (simp add: parse_pair_def a b urlencoded_round_trip)
qed

lemma toString_pieces: "URLSearchParams_toString ps = join_with ''&'' (map piece ps)"
  by (simp add: URLSearchParams_toString_def piece_def [abs_def])

lemma parse_toString: "urlencoded_parse (URLSearchParams_toString ps) = ps"
proof (cases "ps = []")
  case True
  then show ?thesis by (simp add: urlencoded_parse_def URLSearchParams_toString_def)
next
  case False
  then have "split_on CHR ''&'' (join_with ''&'' (map piece ps)) = map piece ps"
    by (intro split_on_join) (auto simp: piece_no_amp)
  then show ?thesis
    by (simp add: urlencoded_parse_def toString_pieces filter_map comp_def piece_nonempty parse_piece)
qed

lemma parse_query_string: "URLSearchParams_of_string (query_string ps) = ps"
proof (cases "ps = []")
  case True
  then show ?thesis
    by (simp add: URLSearchParams_of_string_def query_string_def urlencoded_parse_def)
next
  case False
  then show ?thesis
    by (simp add: URLSearchParams_of_string_def query_string_def parse_toString)
qed

section \<open>Requests and answers of the remaining operations\<close>

lemma search_requests:
  "requests (snd (search options w)) =
     requests w @ [ApiUrl @ ''/cat/search'' @ query_string (search_pairs options)]"
  by (simp add: search_unfold Let_def split: sum.splits)

lemma search_result:
  assumes "answer_to (search options) w = Inr r"
  shows "fst (search options w) =
     (if \<not> ok r then Inl (Error (''Error searching for cats: '' @ statusText r)) else json_of r)"
proof -
  have "server w (length (requests w))
          (ApiUrl @ ''/cat/search'' @ query_string (search_pairs options)) = Inr r"
    using assms by (simp add: answer_to_def request_of_def search_requests)
  then show ?thesis by (simp add: search_unfold Let_def)
qed

lemma getSearchCompletion_requests:
  "requests (snd (getSearchCompletion options w)) =
     requests w @ [ApiUrl @ ''/cat/search-completion'' @ query_string (search_pairs options)]"
  by (simp add: getSearchCompletion_unfold Let_def split: sum.splits)

lemma getSearchCompletion_result:
  assumes "answer_to (getSearchCompletion options) w = Inr r"
  shows "fst (getSearchCompletion options w) =
     (if \<not> ok r then Inl (Error (''Error fetching completion: '' @ statusText r))
      else case json_of r of Inl e \<Rightarrow> Inl e | Inr data \<Rightarrow> get_prop data ''completion'')"
proof -
  have "server w (length (requests w))
          (ApiUrl @ ''/cat/search-completion'' @ query_string (search_pairs options)) = Inr r"
    using assms by (simp add: answer_to_def request_of_def getSearchCompletion_requests)
  then show ?thesis by (simp add: getSearchCompletion_unfold Let_def split: sum.splits)
qed

lemma getSimilar_requests:
  "requests (snd (getSimilar ident options w)) =
     requests w @ [ApiUrl @ ''/cat/similar/'' @ ident @ query_string (similar_pairs options)]"
  by (simp add: getSimilar_unfold Let_def split: sum.splits)

lemma getSimilar_result:
  assumes "answer_to (getSimilar ident options) w = Inr r"
  shows "fst (getSimilar ident options w) =
     (if \<not> ok r then Inl (Error (''Error fetching similar cats: '' @ statusText r)) else json_of r)"
proof -
  have "server w (length (requests w))
          (ApiUrl @ ''/cat/similar/'' @ ident @ query_string (similar_pairs options)) = Inr r"
    using assms by (simp add: answer_to_def request_of_def getSimilar_requests)
  then show ?thesis by (simp add: getSimilar_unfold Let_def)
qed

lemma getInfo_requests:
  "requests (snd (getInfo ident w)) = requests w @ [ApiUrl @ ''/cat/info/'' @ ident]"
  by (simp add: getInfo_unfold Let_def split: sum.splits)

lemma getInfo_result:
  assumes "answer_to (getInfo ident) w = Inr r"
  shows "fst (getInfo ident w) =
     (if \<not> ok r then Inl (Error (''Error fetching cat info: '' @ statusText r)) else json_of r)"
proof -
  have "server w (length (requests w)) (ApiUrl @ ''/cat/info/'' @ ident) = Inr r"
    using assms by (simp add: answer_to_def request_of_def getInfo_requests)
  then show ?thesis by (simp add: getInfo_unfold Let_def)
qed

lemma getThemes_requests:
  "requests (snd (getThemes w)) = requests w @ [ApiUrl @ ''/cat/theme-list'']"
  by (simp add: getThemes_unfold Let_def split: sum.splits)

lemma getThemes_result:
  assumes "answer_to getThemes w = Inr r"
  shows "fst (getThemes w) =
     (if \<not> ok r then Inl (Error (''Error fetching themes: '' @ statusText r))
      else case json_of r of Inl e \<Rightarrow> Inl e | Inr data \<Rightarrow> get_prop data ''themes'')"
proof -
  have "server w (length (requests w)) (ApiUrl @ ''/cat/theme-list'') = Inr r"
    using assms by (simp add: answer_to_def request_of_def getThemes_requests)
  then show ?thesis by (simp add: getThemes_unfold Let_def split: sum.splits)
qed

lemma getCount_requests:
  "requests (snd (getCount theme' w)) =
     requests w @ [ApiUrl @ ''/cat/count'' @
        (case theme' of Some t \<Rightarrow> ''?theme='' @ Theme_value t | None \<Rightarrow> [])]"
  by (simp add: getCount_unfold Let_def split: sum.splits)

lemma getCount_result:
  assumes "answer_to (getCount theme') w = Inr r"
  shows "fst (getCount theme' w) =
     (if \<not> ok r then Inl (Error (''Error fetching count: '' @ statusText r))
      else case json_of r of Inl e \<Rightarrow> Inl e | Inr data \<Rightarrow> get_prop data ''count'')"
proof -
  have "server w (length (requests w))
          (ApiUrl @ ''/cat/count'' @ (case theme' of Some t \<Rightarrow> ''?theme='' @ Theme_value t | None \<Rightarrow> []))
        = Inr r"
    using assms by (simp add: answer_to_def request_of_def getCount_requests)
  then show ?thesis by (simp add: getCount_unfold Let_def split: sum.splits)
qed

lemma answer_lift: "answer_to (\<lambda>w. lift_result f (g w)) w = answer_to g w"
  by (simp add: answer_to_def request_of_def lift_result_def)

lemma fst_lift: "fst (lift_result f x) = map_sum id f (fst x)"
  by (simp add: lift_result_def)

lemma snd_lift: "snd (lift_result f x) = snd x"
  by (simp add: lift_result_def)

lemma answer_V1Api:
  "answer_to (V1Api (Random ro)) w = answer_to (random ro) w"
  "answer_to (V1Api (GetById ident go)) w = answer_to (getById ident go) w"
  "answer_to (V1Api (GetInfo ident)) w = answer_to (getInfo ident) w"
  "answer_to (V1Api (Search so)) w = answer_to (search so) w"
  "answer_to (V1Api (GetSimilar ident mo)) w = answer_to (getSimilar ident mo) w"
  "answer_to (V1Api (GetSearchCompletion so)) w = answer_to (getSearchCompletion so) w"
  "answer_to (V1Api GetThemes) w = answer_to getThemes w"
  "answer_to (V1Api (GetCount th)) w = answer_to (getCount th) w"
  by (simp_all add: answer_to_def request_of_def lift_result_def)

section \<open>Failure on a non-success status\<close>

text \<open>
  Claim C4. Whichever of the eight operations is called, if the transport answers its
  request with a response whose status is not a success, the call fails with the error
  \<^verbatim>\<open>Error <phrase of the operation>: <status text>\<close>, no value is returned, and exactly
  one request has been made (nothing is retried).
\<close>

theorem non_success_status_fails:
  assumes "answer_to (V1Api c) w = Inr r" and "\<not> ok r"
  shows "fst (V1Api c w) = Inl (Error (''Error '' @ failure_phrase c @ '': '' @ statusText r)) \<and>
         (\<exists>url. requests (snd (V1Api c w)) = requests w @ [url])"
proof (cases c)
  case (Random ro)
  with assms show ?thesis
    by (simp add: answer_V1Api fst_lift snd_lift random_result random_requests)
next
  case (GetById ident go)
  with assms show ?thesis
    by (simp add: answer_V1Api fst_lift snd_lift getById_result getById_requests)
next
  case (GetInfo ident)
  with assms show ?thesis
    by (simp add: answer_V1Api fst_lift snd_lift getInfo_result getInfo_requests)
next
  case (Search so)
  with assms show ?thesis
    by (simp add: answer_V1Api fst_lift snd_lift search_result search_requests)
next
  case (GetSimilar ident mo)
  with assms show ?thesis
    by (simp add: answer_V1Api fst_lift snd_lift getSimilar_result getSimilar_requests)
next
  case (GetSearchCompletion so)
  with assms show ?thesis
    by (simp add: answer_V1Api fst_lift snd_lift getSearchCompletion_result getSearchCompletion_requests)
next
  case GetThemes
  with assms show ?thesis
    by (simp add: answer_V1Api fst_lift snd_lift getThemes_result getThemes_requests)
next
  case (GetCount th)
  with assms show ?thesis
    by (simp add: answer_V1Api fst_lift snd_lift getCount_result getCount_requests)
qed

text \<open>A 404 answer to \<^verbatim>\<open>getById\<close>: the message carries the status text \<^verbatim>\<open>Not Found\<close>.\<close>

theorem non_success_status_fails_witness:
  "answer_to (V1Api (GetById ''a1'' None)) (world_with not_found_reply constant_draw) = Inr not_found_reply \<and>
   \<not> ok not_found_reply \<and>
   fst (V1Api (GetById ''a1'' None) (world_with not_found_reply constant_draw)) =
     Inl (Error ''Error fetching cat image: Not Found'') \<and>
   length (requests (snd (V1Api (GetById ''a1'' None) (world_with not_found_reply constant_draw)))) = 1"
proof -
  have a: "answer_to (V1Api (GetById ''a1'' None)) (world_with not_found_reply constant_draw) = Inr not_found_reply"
    by (rule answer_world_with)
  have b: "\<not> ok not_found_reply" by (simp add: ok_def not_found_reply_def)
  have c: "requests (world_with not_found_reply constant_draw) = []" by (simp add: world_with_def)
  have d: "statusText not_found_reply = ''Not Found''" by (simp add: not_found_reply_def)
  from non_success_status_fails [OF a b] show ?thesis
    using a b by (auto simp: c d)
qed

section \<open>The default output shape\<close>

lemma toResponseType_blob: "toResponseType bytes (Some blob) = Inr (Blob bytes ''image/jpeg'')"
  by (simp add: toResponseType_def)

lemma toResponseType_default: "toResponseType bytes None = Inr (Blob bytes ''image/jpeg'')"
  by (simp add: toResponseType_def)

lemma toResponseType_arrayBuffer: "toResponseType bytes (Some arrayBuffer) = Inr (ArrayBuffer bytes)"
  by (simp add: toResponseType_def)

text \<open>
  Claim C9. With \<^verbatim>\<open>responseType\<close> unspecified (no options at all, or options without that
  field) a successful \<^verbatim>\<open>random\<close> or \<^verbatim>\<open>getById\<close> resolves to the raw bytes tagged
  \<^verbatim>\<open>image/jpeg\<close>; \<^verbatim>\<open>arrayBuffer\<close> gives the raw bytes untagged; and a call without
  \<^verbatim>\<open>responseType\<close> behaves in every world exactly as the call with \<^verbatim>\<open>blob\<close>.
\<close>

theorem unspecified_responseType_is_blob:
  assumes "ok r" and "arrayBuffer_of r = Inr bytes"
  shows
    "(answer_to (random None) w = Inr r \<longrightarrow> fst (random None w) = Inr (Blob bytes ''image/jpeg'')) \<and>
     (answer_to (random (Some (ro\<lparr>RandomCatOptions.responseType := None\<rparr>))) w = Inr r \<longrightarrow>
        fst (random (Some (ro\<lparr>RandomCatOptions.responseType := None\<rparr>)) w) = Inr (Blob bytes ''image/jpeg'')) \<and>
     (answer_to (random (Some (ro\<lparr>RandomCatOptions.responseType := Some arrayBuffer\<rparr>))) w = Inr r \<longrightarrow>
        fst (random (Some (ro\<lparr>RandomCatOptions.responseType := Some arrayBuffer\<rparr>)) w) = Inr (ArrayBuffer bytes)) \<and>
     (answer_to (getById ident None) w = Inr r \<longrightarrow>
        fst (getById ident None w) = Inr (Blob bytes ''image/jpeg'')) \<and>
     (answer_to (getById ident (Some (go\<lparr>GetByIdOptions.responseType := None\<rparr>))) w = Inr r \<longrightarrow>
        fst (getById ident (Some (go\<lparr>GetByIdOptions.responseType := None\<rparr>)) w) = Inr (Blob bytes ''image/jpeg'')) \<and>
     (answer_to (getById ident (Some (go\<lparr>GetByIdOptions.responseType := Some arrayBuffer\<rparr>))) w = Inr r \<longrightarrow>
        fst (getById ident (Some (go\<lparr>GetByIdOptions.responseType := Some arrayBuffer\<rparr>)) w) = Inr (ArrayBuffer bytes)) \<and>
     random (Some (ro\<lparr>RandomCatOptions.responseType := None\<rparr>)) w =
       random (Some (ro\<lparr>RandomCatOptions.responseType := Some blob\<rparr>)) w \<and>
     getById ident (Some (go\<lparr>GetByIdOptions.responseType := None\<rparr>)) w =
       getById ident (Some (go\<lparr>GetByIdOptions.responseType := Some blob\<rparr>)) w"
proof -
  have e1: "random (Some (ro\<lparr>RandomCatOptions.responseType := None\<rparr>)) w =
       random (Some (ro\<lparr>RandomCatOptions.responseType := Some blob\<rparr>)) w"
    by (simp add: random_unfold random_pairs_def Let_def split: sum.splits)
  have e2: "getById ident (Some (go\<lparr>GetByIdOptions.responseType := None\<rparr>)) w =
       getById ident (Some (go\<lparr>GetByIdOptions.responseType := Some blob\<rparr>)) w"
    by (simp add: getById_unfold Let_def split: sum.splits)
  have c1: "answer_to (random None) w = Inr r \<longrightarrow> fst (random None w) = Inr (Blob bytes ''image/jpeg'')"
    using assms by (simp add: random_result toResponseType_blob)
  have c2: "answer_to (random (Some (ro\<lparr>RandomCatOptions.responseType := None\<rparr>))) w = Inr r \<longrightarrow>
        fst (random (Some (ro\<lparr>RandomCatOptions.responseType := None\<rparr>)) w) = Inr (Blob bytes ''image/jpeg'')"
    using assms by (simp add: random_result toResponseType_blob)
  have c3: "answer_to (random (Some (ro\<lparr>RandomCatOptions.responseType := Some arrayBuffer\<rparr>))) w = Inr r \<longrightarrow>
        fst (random (Some (ro\<lparr>RandomCatOptions.responseType := Some arrayBuffer\<rparr>)) w) = Inr (ArrayBuffer bytes)"
    using assms by (simp add: random_result toResponseType_arrayBuffer)
  have c4: "answer_to (getById ident None) w = Inr r \<longrightarrow>
        fst (getById ident None w) = Inr (Blob bytes ''image/jpeg'')"
    using assms by (simp add: getById_result toResponseType_blob)
  have c5: "answer_to (getById ident (Some (go\<lparr>GetByIdOptions.responseType := None\<rparr>))) w = Inr r \<longrightarrow>
        fst (getById ident (Some (go\<lparr>GetByIdOptions.responseType := None\<rparr>)) w) = Inr (Blob bytes ''image/jpeg'')"
    using assms by (simp add: getById_result toResponseType_blob)
  have c6: "answer_to (getById ident (Some (go\<lparr>GetByIdOptions.responseType := Some arrayBuffer\<rparr>))) w = Inr r \<longrightarrow>
        fst (getById ident (Some (go\<lparr>GetByIdOptions.responseType := Some arrayBuffer\<rparr>)) w) = Inr (ArrayBuffer bytes)"
    using assms by (simp add: getById_result toResponseType_arrayBuffer)
  show ?thesis
    by (intro conjI c1 c2 c3 c4 c5 c6 e1 e2)
qed

text \<open>\<^verbatim>\<open>getById('a1', { size: Size.Small })\<close> against a server that delivers four bytes.\<close>

theorem unspecified_responseType_is_blob_witness:
  "ok image_reply \<and> arrayBuffer_of image_reply = Inr jpeg_head \<and>
   answer_to (getById ''a1'' (Some (small_blob\<lparr>GetByIdOptions.responseType := None\<rparr>)))
     (world_with image_reply constant_draw) = Inr image_reply \<and>
   fst (getById ''a1'' (Some (small_blob\<lparr>GetByIdOptions.responseType := None\<rparr>))
     (world_with image_reply constant_draw)) = Inr (Blob [0xFF, 0xD8, 0xFF, 0xE0] ''image/jpeg'')"
proof -
  have a: "ok image_reply" by (simp add: ok_def image_reply_def)
  have b: "arrayBuffer_of image_reply = Inr jpeg_head" by (simp add: image_reply_def)
  have c: "answer_to (getById ''a1'' (Some (small_blob\<lparr>GetByIdOptions.responseType := None\<rparr>)))
     (world_with image_reply constant_draw) = Inr image_reply"
    by (rule answer_world_with)
  from unspecified_responseType_is_blob [OF a b,
        where w = "world_with image_reply constant_draw" and ident = "''a1''" and go = small_blob] c
  have "fst (getById ''a1'' (Some (small_blob\<lparr>GetByIdOptions.responseType := None\<rparr>))
     (world_with image_reply constant_draw)) = Inr (Blob jpeg_head ''image/jpeg'')"
    by blast
  with a b c show ?thesis by (simp add: jpeg_head_def)
qed

section \<open>The size parameter of \<^verbatim>\<open>getById\<close>\<close>












section \<open>The theme list and the count\<close>

lemma getThemes_earlier_requests:
  "requests (snd (getThemes_earlier w)) = requests w @ [ApiUrl @ ''/cat/themes'']"
  by (simp add: getThemes_earlier_def fetch_def Let_def split: sum.splits)

text \<open>
  Claim C7. \<^verbatim>\<open>getThemes\<close> requests \<^verbatim>\<open>/cat/theme-list\<close> under the base URL, and on a
  successful response whose JSON body is an object it resolves to the value of the
  property \<^verbatim>\<open>themes\<close>; the body \<^verbatim>\<open>{"themes":["Default","Xmas"]}\<close> gives the array
  \<^verbatim>\<open>["Default","Xmas"]\<close>.
\<close>

theorem getThemes_reads_themes_field:
  "requests (snd (getThemes w)) = requests w @ [''https://api.ai-cats.net/v1/cat/theme-list''] \<and>
   (answer_to getThemes w = Inr r \<and> ok r \<and> json_of r = Inr (Object props) \<and>
      map_of props ''themes'' = Some v \<longrightarrow> fst (getThemes w) = Inr v) \<and>
   (answer_to getThemes w = Inr (json_reply themes_body) \<longrightarrow>
      fst (getThemes w) = Inr (Array [String ''Default'', String ''Xmas'']))"
proof -
  have a: "requests (snd (getThemes w)) = requests w @ [''https://api.ai-cats.net/v1/cat/theme-list'']"
    by (simp add: getThemes_requests ApiUrl_def)
  have b: "answer_to getThemes w = Inr r \<and> ok r \<and> json_of r = Inr (Object props) \<and>
      map_of props ''themes'' = Some v \<longrightarrow> fst (getThemes w) = Inr v"
    by (simp add: getThemes_result)
  have c: "answer_to getThemes w = Inr (json_reply themes_body) \<longrightarrow>
      fst (getThemes w) = Inr (Array [String ''Default'', String ''Xmas''])"
    by (simp add: getThemes_result json_reply_def ok_def themes_body_def)
  show ?thesis by (intro conjI a b c)
qed

theorem getThemes_reads_themes_field_witness:
  "answer_to getThemes (world_with (json_reply themes_body) constant_draw) = Inr (json_reply themes_body) \<and>
   ok (json_reply themes_body) \<and>
   json_of (json_reply themes_body) = Inr (Object [(''themes'', Array [String ''Default'', String ''Xmas''])]) \<and>
   map_of [(''themes'', Array [String ''Default'', String ''Xmas''])] ''themes'' =
     Some (Array [String ''Default'', String ''Xmas'']) \<and>
   fst (getThemes (world_with (json_reply themes_body) constant_draw)) =
     Inr (Array [String ''Default'', String ''Xmas''])"
proof -
  have a: "answer_to getThemes (world_with (json_reply themes_body) constant_draw) = Inr (json_reply themes_body)"
    by (rule answer_world_with)
  have b: "ok (json_reply themes_body)" by (simp add: ok_def json_reply_def)
  have c: "json_of (json_reply themes_body) = Inr (Object [(''themes'', Array [String ''Default'', String ''Xmas''])])"
    by (simp add: json_reply_def themes_body_def)
  have d: "map_of [(''themes'', Array [String ''Default'', String ''Xmas''])] ''themes'' =
     Some (Array [String ''Default'', String ''Xmas''])"
    by simp
  from getThemes_reads_themes_field [where w = "world_with (json_reply themes_body) constant_draw"
      and r = "json_reply themes_body" and props = "[(''themes'', Array [String ''Default'', String ''Xmas''])]"
      and v = "Array [String ''Default'', String ''Xmas'']"] a b c d
  have "fst (getThemes (world_with (json_reply themes_body) constant_draw)) =
     Inr (Array [String ''Default'', String ''Xmas''])"
    by blast
  with a b c d show ?thesis by (intro conjI)
qed

text \<open>
  Claim C8. \<^verbatim>\<open>getCount\<close> requests \<^verbatim>\<open>/cat/count\<close> with nothing appended when no theme is
  given and with \<^verbatim>\<open>?theme=\<close> and the theme's value appended otherwise; on a successful
  response whose JSON body is an object it resolves to the value of the property
  \<^verbatim>\<open>count\<close>; a 200 response with the body \<^verbatim>\<open>{"count": 42}\<close> gives 42.
\<close>

theorem getCount_reads_count_field:
  "requests (snd (getCount None w)) = requests w @ [''https://api.ai-cats.net/v1/cat/count''] \<and>
   requests (snd (getCount (Some t) w)) =
     requests w @ [''https://api.ai-cats.net/v1/cat/count'' @ ''?theme='' @ Theme_value t] \<and>
   (answer_to (getCount th) w = Inr r \<and> ok r \<and> json_of r = Inr (Object props) \<and>
      map_of props ''count'' = Some v \<longrightarrow> fst (getCount th w) = Inr v) \<and>
   (answer_to (getCount th) w = Inr (json_reply count_body) \<longrightarrow>
      status (json_reply count_body) = 200 \<and> fst (getCount th w) = Inr (Number 42))"
proof -
  have a: "requests (snd (getCount None w)) = requests w @ [''https://api.ai-cats.net/v1/cat/count'']"
    by (simp add: getCount_requests ApiUrl_def)
  have b: "requests (snd (getCount (Some t) w)) =
     requests w @ [''https://api.ai-cats.net/v1/cat/count'' @ ''?theme='' @ Theme_value t]"
    by (simp add: getCount_requests ApiUrl_def)
  have c: "answer_to (getCount th) w = Inr r \<and> ok r \<and> json_of r = Inr (Object props) \<and>
      map_of props ''count'' = Some v \<longrightarrow> fst (getCount th w) = Inr v"
    by (simp add: getCount_result)
  have d: "answer_to (getCount th) w = Inr (json_reply count_body) \<longrightarrow>
      status (json_reply count_body) = 200 \<and> fst (getCount th w) = Inr (Number 42)"
    by (simp add: getCount_result json_reply_def ok_def count_body_def)
  show ?thesis by (intro conjI a b c d)
qed

theorem getCount_reads_count_field_witness:
  "answer_to (getCount None) (world_with (json_reply count_body) constant_draw) = Inr (json_reply count_body) \<and>
   ok (json_reply count_body) \<and>
   json_of (json_reply count_body) = Inr (Object [(''count'', Number 42)]) \<and>
   map_of [(''count'', Number 42)] ''count'' = Some (Number 42) \<and>
   fst (getCount None (world_with (json_reply count_body) constant_draw)) = Inr (Number 42)"
proof -
  have a: "answer_to (getCount None) (world_with (json_reply count_body) constant_draw) = Inr (json_reply count_body)"
    by (rule answer_world_with)
  have b: "ok (json_reply count_body)" by (simp add: ok_def json_reply_def)
  have c: "json_of (json_reply count_body) = Inr (Object [(''count'', Number 42)])"
    by (simp add: json_reply_def count_body_def)
  have d: "map_of [(''count'', Number 42)] ''count'' = Some (Number 42)"
    by simp
  from getCount_reads_count_field [where w = "world_with (json_reply count_body) constant_draw"
      and th = None and r = "json_reply count_body" and props = "[(''count'', Number 42)]"
      and v = "Number 42"] a b c d
  have "fst (getCount None (world_with (json_reply count_body) constant_draw)) = Inr (Number 42)"
    by blast
  with a b c d show ?thesis by (intro conjI)
qed

section \<open>Falsy option values\<close>


section \<open>Which pairs a search request carries\<close>

lemma nat_toString_nonempty: "nat_toString n \<noteq> []"
  by (subst nat_toString.simps) simp

lemma Number_toString_nonempty: "Number_toString i \<noteq> []"
  by (simp add: Number_toString_def nat_toString_nonempty)

lemma search_values_nonempty: "p \<in> set (search_pairs options) \<Longrightarrow> snd p \<noteq> []"
  by (auto simp: search_pairs_def text_pair_def limit_pair_def descending_pair_def theme_pair_def
      size_pair_def Number_toString_nonempty Size_value_nonempty Theme_value_nonempty
      split: option.splits if_splits)

lemma keys_search_pairs:
  "fst ` set (search_pairs options) =
     fst ` set (text_pair ''query'' (Option.bind options query)) \<union>
     fst ` set (limit_pair (Option.bind options SearchOptions.limit)) \<union>
     fst ` set (text_pair ''from'' (Option.bind options from)) \<union>
     fst ` set (descending_pair (Option.bind options descending)) \<union>
     fst ` set (theme_pair (Option.bind options SearchOptions.theme)) \<union>
     fst ` set (size_pair (Option.bind options SearchOptions.size))"
  by (simp add: search_pairs_def image_Un Un_assoc)

lemma other_key_text: "k \<noteq> name \<Longrightarrow> k \<notin> fst ` set (text_pair name v)"
  using keys_text_pair [of name v] by auto

lemma other_key_limit: "k \<noteq> ''limit'' \<Longrightarrow> k \<notin> fst ` set (limit_pair v)"
  using keys_limit_pair [of v] by auto

lemma other_key_descending: "k \<noteq> ''descending'' \<Longrightarrow> k \<notin> fst ` set (descending_pair v)"
  using keys_descending_pair [of v] by auto

lemma other_key_theme: "k \<noteq> ''theme'' \<Longrightarrow> k \<notin> fst ` set (theme_pair v)"
  using keys_theme_pair [of v] by auto

lemma other_key_size: "k \<noteq> ''size'' \<Longrightarrow> k \<notin> fst ` set (size_pair v)"
  using keys_size_pair [of v] by auto

lemmas other_keys = other_key_text other_key_limit other_key_descending other_key_theme other_key_size

lemma unset_absent:
  "query so = None \<Longrightarrow> ''query'' \<notin> fst ` set (search_pairs (Some so))"
  "SearchOptions.limit so = None \<Longrightarrow> ''limit'' \<notin> fst ` set (search_pairs (Some so))"
  "from so = None \<Longrightarrow> ''from'' \<notin> fst ` set (search_pairs (Some so))"
  "descending so = None \<Longrightarrow> ''descending'' \<notin> fst ` set (search_pairs (Some so))"
  "SearchOptions.theme so = None \<Longrightarrow> ''theme'' \<notin> fst ` set (search_pairs (Some so))"
  "SearchOptions.size so = None \<Longrightarrow> ''size'' \<notin> fst ` set (search_pairs (Some so))"
  "descending so = Some False \<Longrightarrow> ''descending'' \<notin> fst ` set (search_pairs (Some so))"
  unfolding keys_search_pairs
  by (simp_all add: other_keys, simp_all add: text_pair_def limit_pair_def descending_pair_def
      theme_pair_def size_pair_def)

lemma filter_absent: "k \<notin> fst ` set ps \<Longrightarrow> filter (\<lambda>p. fst p = k) ps = []"
  by (induction ps) auto

lemma descending_once:
  assumes "descending so = Some True"
  shows "filter (\<lambda>p. fst p = ''descending'') (search_pairs (Some so)) = [(''descending'', ''true'')]"
  using assms
  by (simp add: search_pairs_def filter_absent other_keys) (simp add: descending_pair_def)

lemma safe_descending: "piece (''descending'', ''true'') = ''descending=true''"
  by (simp add: piece_def urlencoded_string_def urlencoded_byte_def urlencoded_safe_def)

lemma pieces_of_query_string:
  "ps \<noteq> [] \<Longrightarrow> split_on CHR ''&'' (tl (query_string ps)) = map piece ps"
  by (simp add: query_string_def toString_pieces split_on_join piece_no_amp)

lemma descending_piece:
  assumes "descending so = Some True"
  shows "''descending=true'' \<in> set (split_on CHR ''&'' (tl (query_string (search_pairs (Some so)))))"
proof -
  have m: "(''descending'', ''true'') \<in> set (search_pairs (Some so))"
    using assms by (simp add: search_pairs_def descending_pair_def)
  then have "search_pairs (Some so) \<noteq> []" by auto
  then have "split_on CHR ''&'' (tl (query_string (search_pairs (Some so)))) = map piece (search_pairs (Some so))"
    by (rule pieces_of_query_string)
  moreover have "piece (''descending'', ''true'') \<in> set (map piece (search_pairs (Some so)))"
    using m by (simp only: set_map) (rule imageI)
  ultimately show ?thesis by (simp only: safe_descending)
qed

text \<open>
  Claim C2. For every option bundle given to \<^verbatim>\<open>search\<close> or \<^verbatim>\<open>getSearchCompletion\<close>, the
  query string \<open>q\<close> appended to the path carries no pair for a field that is unset and no
  pair with an empty value; with \<^verbatim>\<open>descending: false\<close> it carries no \<^verbatim>\<open>descending\<close> pair;
  with \<^verbatim>\<open>descending: true\<close> it carries exactly one, \<^verbatim>\<open>descending=true\<close>.
\<close>

theorem unset_fields_are_absent:
  "\<exists>q. requests (snd (search (Some so) w)) = requests w @ [ApiUrl @ ''/cat/search'' @ q] \<and>
       requests (snd (getSearchCompletion (Some so) w)) =
         requests w @ [ApiUrl @ ''/cat/search-completion'' @ q] \<and>
       (query so = None \<longrightarrow> ''query'' \<notin> fst ` set (URLSearchParams_of_string q)) \<and>
       (SearchOptions.limit so = None \<longrightarrow> ''limit'' \<notin> fst ` set (URLSearchParams_of_string q)) \<and>
       (from so = None \<longrightarrow> ''from'' \<notin> fst ` set (URLSearchParams_of_string q)) \<and>
       (descending so = None \<longrightarrow> ''descending'' \<notin> fst ` set (URLSearchParams_of_string q)) \<and>
       (SearchOptions.theme so = None \<longrightarrow> ''theme'' \<notin> fst ` set (URLSearchParams_of_string q)) \<and>
       (SearchOptions.size so = None \<longrightarrow> ''size'' \<notin> fst ` set (URLSearchParams_of_string q)) \<and>
       (\<forall>p \<in> set (URLSearchParams_of_string q). snd p \<noteq> []) \<and>
       (descending so = Some False \<longrightarrow> ''descending'' \<notin> fst ` set (URLSearchParams_of_string q)) \<and>
       (descending so = Some True \<longrightarrow>
          filter (\<lambda>p. fst p = ''descending'') (URLSearchParams_of_string q) = [(''descending'', ''true'')] \<and>
          ''descending=true'' \<in> set (split_on CHR ''&'' (tl q)))"
proof (intro exI [of _ "query_string (search_pairs (Some so))"] conjI impI ballI;
    (unfold parse_query_string)?)
  show "requests (snd (search (Some so) w)) =
      requests w @ [ApiUrl @ ''/cat/search'' @ query_string (search_pairs (Some so))]"
    by (rule search_requests)
  show "requests (snd (getSearchCompletion (Some so) w)) =
      requests w @ [ApiUrl @ ''/cat/search-completion'' @ query_string (search_pairs (Some so))]"
    by (rule getSearchCompletion_requests)
qed (simp_all add: unset_absent search_values_nonempty descending_once descending_piece)

text \<open>\<^verbatim>\<open>search({ query: 'orange', descending: true })\<close>.\<close>

theorem unset_fields_are_absent_witness:
  "SearchOptions.limit newest_orange = None \<and> descending newest_orange = Some True \<and>
   (\<exists>q. requests (snd (search (Some newest_orange) (world_with (json_reply (Array [])) constant_draw))) =
          [ApiUrl @ ''/cat/search'' @ q] \<and>
        ''limit'' \<notin> fst ` set (URLSearchParams_of_string q) \<and>
        filter (\<lambda>p. fst p = ''descending'') (URLSearchParams_of_string q) = [(''descending'', ''true'')])"
proof -
  have a: "SearchOptions.limit newest_orange = None" "descending newest_orange = Some True"
    by (simp_all add: newest_orange_def no_SearchOptions_def)
  have b: "requests (world_with (json_reply (Array [])) constant_draw) = []"
    by (simp add: world_with_def)
  show ?thesis
    using unset_fields_are_absent [of newest_orange "world_with (json_reply (Array [])) constant_draw"]
    unfolding b append_Nil
    apply (elim exE conjE)
    subgoal for q
      apply (intro conjI a)
      apply (rule exI [of _ q])
      apply (simp add: a)
      done
    done
qed

section \<open>The order of the pairs\<close>

lemma subseq_text: "subseq (map fst (text_pair name v)) [name]"
  by (simp add: text_pair_def split: option.splits)

lemma subseq_limit: "subseq (map fst (limit_pair v)) [''limit'']"
  by (simp add: limit_pair_def split: option.splits)

lemma subseq_descending: "subseq (map fst (descending_pair v)) [''descending'']"
  by (simp add: descending_pair_def split: option.splits)

lemma subseq_theme: "subseq (map fst (theme_pair v)) [''theme'']"
  by (simp add: theme_pair_def split: option.splits)

lemma subseq_size: "subseq (map fst (size_pair v)) [''size'']"
  by (simp add: size_pair_def split: option.splits)

lemma search_order:
  "subseq (map fst (search_pairs options)) [''query'', ''limit'', ''from'', ''descending'', ''theme'', ''size'']"
proof -
  have "subseq (map fst (search_pairs options))
      ([''query''] @ [''limit''] @ [''from''] @ [''descending''] @ [''theme''] @ [''size''])"
    unfolding search_pairs_def map_append
    by (intro list_emb_append_mono subseq_text subseq_limit subseq_descending subseq_theme subseq_size)
  then show ?thesis by simp
qed

lemma random_order:
  "subseq (map fst (random_pairs options rnd)) [''size'', ''theme'', ''rnd'']"
proof -
  have "subseq (map fst (random_pairs options rnd)) ([''size''] @ [''theme''] @ [''rnd''])"
    unfolding random_pairs_def map_append
    by (intro list_emb_append_mono subseq_theme subseq_size) simp
  then show ?thesis by simp
qed

lemma similar_order:
  "subseq (map fst (similar_pairs options)) [''limit'', ''size'']"
proof -
  have "subseq (map fst (similar_pairs options)) ([''limit''] @ [''size''])"
    unfolding similar_pairs_def map_append
    by (intro list_emb_append_mono subseq_limit subseq_size)
  then show ?thesis by simp
qed

text \<open>
  Claim C6, as amended. For every option bundle the pairs of the query string \<open>q\<close> appear
  in the order in which the code inserts them, each name at most once: \<^verbatim>\<open>query\<close>,
  \<^verbatim>\<open>limit\<close>, \<^verbatim>\<open>from\<close>, \<^verbatim>\<open>descending\<close>, \<^verbatim>\<open>theme\<close>, \<^verbatim>\<open>size\<close> for \<^verbatim>\<open>search\<close> and
  \<^verbatim>\<open>getSearchCompletion\<close>; \<^verbatim>\<open>size\<close>, \<^verbatim>\<open>theme\<close>, \<^verbatim>\<open>rnd\<close> for \<^verbatim>\<open>random\<close>; \<^verbatim>\<open>limit\<close>,
  \<^verbatim>\<open>size\<close> for \<^verbatim>\<open>getSimilar\<close>.
\<close>

theorem pairs_follow_insertion_order:
  "(\<exists>q. requests (snd (search so w)) = requests w @ [ApiUrl @ ''/cat/search'' @ q] \<and>
        requests (snd (getSearchCompletion so w)) = requests w @ [ApiUrl @ ''/cat/search-completion'' @ q] \<and>
        subseq (map fst (URLSearchParams_of_string q))
          [''query'', ''limit'', ''from'', ''descending'', ''theme'', ''size'']) \<and>
   (\<exists>q. requests (snd (random ro w)) = requests w @ [ApiUrl @ ''/cat'' @ q] \<and>
        subseq (map fst (URLSearchParams_of_string q)) [''size'', ''theme'', ''rnd'']) \<and>
   (\<exists>q. requests (snd (getSimilar ident mo w)) = requests w @ [ApiUrl @ ''/cat/similar/'' @ ident @ q] \<and>
        subseq (map fst (URLSearchParams_of_string q)) [''limit'', ''size''])"
proof (intro conjI)
  show "\<exists>q. requests (snd (search so w)) = requests w @ [ApiUrl @ ''/cat/search'' @ q] \<and>
        requests (snd (getSearchCompletion so w)) = requests w @ [ApiUrl @ ''/cat/search-completion'' @ q] \<and>
        subseq (map fst (URLSearchParams_of_string q))
          [''query'', ''limit'', ''from'', ''descending'', ''theme'', ''size'']"
    by (intro exI [of _ "query_string (search_pairs so)"] conjI search_requests
        getSearchCompletion_requests) (simp only: parse_query_string search_order)
  show "\<exists>q. requests (snd (random ro w)) = requests w @ [ApiUrl @ ''/cat'' @ q] \<and>
        subseq (map fst (URLSearchParams_of_string q)) [''size'', ''theme'', ''rnd'']"
    by (intro exI [of _ "query_string (random_pairs ro (rng w (draws w)))"] conjI random_requests)
       (simp only: parse_query_string random_order)
  show "\<exists>q. requests (snd (getSimilar ident mo w)) = requests w @ [ApiUrl @ ''/cat/similar/'' @ ident @ q] \<and>
        subseq (map fst (URLSearchParams_of_string q)) [''limit'', ''size'']"
    by (intro exI [of _ "query_string (similar_pairs mo)"] conjI getSimilar_requests)
       (simp only: parse_query_string similar_order)
qed

text \<open>
  The order the claim names (\<^verbatim>\<open>size\<close>, \<^verbatim>\<open>theme\<close>, \<^verbatim>\<open>query\<close>, \<^verbatim>\<open>limit\<close>, \<^verbatim>\<open>from\<close>,
  \<^verbatim>\<open>descending\<close>) is not the order of \<^verbatim>\<open>search\<close>: \<^verbatim>\<open>search({ query: 'orange', size:
  Size.Medium })\<close> sends \<^verbatim>\<open>query\<close> before \<^verbatim>\<open>size\<close>.
\<close>

lemma orange_medium_query:
  "query_string (search_pairs (Some orange_medium)) = ''?query=orange&size=512''"
  by (simp add: orange_medium_def no_SearchOptions_def search_pairs_def text_pair_def limit_pair_def
      descending_pair_def theme_pair_def size_pair_def query_string_def URLSearchParams_toString_def
      urlencoded_string_def urlencoded_byte_def urlencoded_safe_def)

lemma orange_medium_pairs:
  "search_pairs (Some orange_medium) = [(''query'', ''orange''), (''size'', ''512'')]"
  by (simp add: orange_medium_def no_SearchOptions_def search_pairs_def text_pair_def limit_pair_def
      descending_pair_def theme_pair_def size_pair_def)

theorem claimed_field_order_counterexample:
  "requests (snd (search (Some orange_medium) (world_with (json_reply (Array [])) constant_draw))) =
     [''https://api.ai-cats.net/v1/cat/search?query=orange&size=512''] \<and>
   map fst (URLSearchParams_of_string ''?query=orange&size=512'') = [''query'', ''size''] \<and>
   \<not> subseq [''query'', ''size''] [''size'', ''theme'', ''query'', ''limit'', ''from'', ''descending'']"
proof (intro conjI)
  show "requests (snd (search (Some orange_medium) (world_with (json_reply (Array [])) constant_draw))) =
     [''https://api.ai-cats.net/v1/cat/search?query=orange&size=512'']"
    by (simp add: search_requests orange_medium_query) (simp add: world_with_def ApiUrl_def)
  show "map fst (URLSearchParams_of_string ''?query=orange&size=512'') = [''query'', ''size'']"
    using parse_query_string [of "search_pairs (Some orange_medium)"]
    by (simp only: orange_medium_query) (simp add: orange_medium_pairs)
  show "\<not> subseq [''query'', ''size''] [''size'', ''theme'', ''query'', ''limit'', ''from'', ''descending'']"
    by simp
qed

section \<open>The cache-busting parameter of \<^verbatim>\<open>random\<close>\<close>

lemma random_world:
  "rng (snd (random ro w)) = rng w \<and> draws (snd (random ro w)) = Suc (draws w) \<and>
   server (snd (random ro w)) = server w"
  by (simp add: random_unfold Let_def split: sum.splits)

lemma random_twice:
  "requests (snd (random ro (snd (random ro w)))) =
     requests w @ [ApiUrl @ ''/cat'' @ query_string (random_pairs ro (rng w (draws w))),
                   ApiUrl @ ''/cat'' @ query_string (random_pairs ro (rng w (Suc (draws w))))]"
  by (simp add: random_requests [of ro "snd (random ro w)"] random_world) (simp add: random_requests)

lemma random_query_inj:
  "query_string (random_pairs ro a) = query_string (random_pairs ro b) \<longleftrightarrow> a = b"
proof
  assume "query_string (random_pairs ro a) = query_string (random_pairs ro b)"
  then have "URLSearchParams_of_string (query_string (random_pairs ro a)) =
      URLSearchParams_of_string (query_string (random_pairs ro b))"
    by (rule arg_cong)
  then have "random_pairs ro a = random_pairs ro b"
    by (simp only: parse_query_string)
  then show "a = b" by (simp add: random_pairs_def)
next
  assume "a = b"
  then show "query_string (random_pairs ro a) = query_string (random_pairs ro b)" by simp
qed

lemma rnd_in_random_pairs: "(''rnd'', d) \<in> set (random_pairs ro d)"
  by (simp add: random_pairs_def)

text \<open>
  Claim C5, as amended. Every call of \<^verbatim>\<open>random\<close> appends the pair \<^verbatim>\<open>rnd\<close> with the text of
  that call's \<^verbatim>\<open>Math.random()\<close> draw; for two consecutive calls with the same options the
  two query strings differ exactly when the two draws differ.
\<close>

theorem rnd_varies_with_the_draw:
  "\<exists>q1 q2. requests (snd (random ro (snd (random ro w)))) =
             requests w @ [ApiUrl @ ''/cat'' @ q1, ApiUrl @ ''/cat'' @ q2] \<and>
           (''rnd'', rng w (draws w)) \<in> set (URLSearchParams_of_string q1) \<and>
           (''rnd'', rng w (Suc (draws w))) \<in> set (URLSearchParams_of_string q2) \<and>
           (q1 \<noteq> q2 \<longleftrightarrow> rng w (draws w) \<noteq> rng w (Suc (draws w)))"
  by (intro exI [of _ "query_string (random_pairs ro (rng w (draws w)))"]
        exI [of _ "query_string (random_pairs ro (rng w (Suc (draws w))))"] conjI random_twice)
     (simp_all only: parse_query_string rnd_in_random_pairs random_query_inj)

text \<open>Two calls whose draws are 0.25 and 0.75.\<close>

theorem rnd_varies_with_the_draw_witness:
  "two_draws 0 \<noteq> two_draws (Suc 0) \<and>
   (\<exists>q1 q2. requests (snd (random None (snd (random None (world_with image_reply two_draws))))) =
              [ApiUrl @ ''/cat'' @ q1, ApiUrl @ ''/cat'' @ q2] \<and> q1 \<noteq> q2)"
proof -
  have a: "two_draws 0 \<noteq> two_draws (Suc 0)" by (simp add: two_draws_def)
  have b: "requests (world_with image_reply two_draws) = []"
    "rng (world_with image_reply two_draws) = two_draws"
    "draws (world_with image_reply two_draws) = 0"
    by (simp_all add: world_with_def)
  show ?thesis
    using rnd_varies_with_the_draw [of None "world_with image_reply two_draws"]
    unfolding b append_Nil
    apply (elim exE conjE)
    subgoal for q1 q2
      apply (intro conjI a)
      apply (rule exI [of _ q1])
      apply (rule exI [of _ q2])
      apply (simp add: a)
      done
    done
qed

text \<open>
  The claim as stated fails where two consecutive draws coincide: both calls then request
  the same URL.
\<close>

lemma constant_query: "query_string (random_pairs None ''0.5'') = ''?rnd=0.5''"
  by (simp add: random_pairs_def size_pair_def theme_pair_def query_string_def URLSearchParams_toString_def
      urlencoded_string_def urlencoded_byte_def urlencoded_safe_def)

theorem equal_draws_counterexample:
  "requests (snd (random None (snd (random None (world_with image_reply constant_draw))))) =
     [''https://api.ai-cats.net/v1/cat?rnd=0.5'', ''https://api.ai-cats.net/v1/cat?rnd=0.5'']"
proof -
  have b: "requests (world_with image_reply constant_draw) = []"
    "rng (world_with image_reply constant_draw) = constant_draw"
    by (simp_all add: world_with_def)
  show ?thesis
    by (simp add: random_twice b constant_draw_def constant_query) (simp add: ApiUrl_def)
qed

end
